theory Spec2Isabelle
  imports Main "HOL-Library.Word"
begin

section \<open>The PowerStats HAL service (powerstats/PowerStatsAidl.cpp)\<close>

text \<open>
  A shallow embedding of \<^verbatim>\<open>PowerStats\<close>: the registry of state residency data
  providers, the query facade over it, and the text dump with its delta mode.
  The data providers are external objects; their behaviour is a parameter of the
  model. A provider may read hardware counters, so every call of a provider takes the
  state \<open>'w\<close> of the world outside the service and returns the new one.
  An output parameter \<^verbatim>\<open>*_aidl_return\<close> is an argument (the caller's vector) and a
  component of the result. \<^verbatim>\<open>int32_t\<close> and \<^verbatim>\<open>int64_t\<close> are words: arithmetic
  wraps around, \<open>sint\<close> reads the signed value.
\<close>

subsection \<open>Data types of the AIDL interface\<close>

type_synonym int32_t = "32 word"
type_synonym int64_t = "64 word"

text \<open>
  \<^verbatim>\<open>binder_status_t\<close> and \<^verbatim>\<open>ndk::ScopedAStatus\<close> belong to the NDK. The service
  only ever builds a status from one of three codes (\<^verbatim>\<open>ok()\<close> is the status of
  \<^verbatim>\<open>STATUS_OK\<close>), so a status is modelled by its code.
\<close>

datatype binder_status_t = STATUS_OK | STATUS_BAD_VALUE | STATUS_FAILED_TRANSACTION

type_synonym ScopedAStatus = binder_status_t

record PowerEntityStateInfo =
  powerEntityStateId :: int32_t
  powerEntityStateName :: string

record PowerEntityInfo =
  powerEntityId :: int32_t
  powerEntityName :: string
  states :: "PowerEntityStateInfo list"

text \<open>
  The two result structures have fields named like those of the info structures; their
  fields carry the prefix \<open>data_\<close> and \<open>res_\<close> here.
\<close>

record PowerEntityStateResidencyData =
  data_powerEntityStateId :: int32_t
  totalTimeInStateMs :: int64_t
  totalStateEntryCount :: int64_t
  lastEntryTimestampMs :: int64_t

record PowerEntityStateResidencyResult =
  res_powerEntityId :: int32_t
  stateResidencyData :: "PowerEntityStateResidencyData list"

record RailInfo =
  railIndex :: int32_t
  subsysName :: string
  railName :: string

record EnergyData =
  energy_railIndex :: int32_t
  energyUWs :: int64_t

subsection \<open>The providers\<close>

text \<open>
  \<^verbatim>\<open>std::unordered_map<std::string, std::vector<PowerEntityStateResidencyData>>\<close>,
  the map that \<^verbatim>\<open>getResults\<close> fills.
\<close>

type_synonym StateResidencies = "string \<rightharpoonup> PowerEntityStateResidencyData list"

text \<open>
  \<^verbatim>\<open>IStateResidencyDataProvider\<close>: \<open>getInfo\<close> is the map from entity names to state
  lists that the provider returns, in the order in which the registration loop iterates
  over it; \<open>getResults\<close> receives the map to fill and may change it in any way. The
  service looks at nothing else that \<^verbatim>\<open>getResults\<close> may return.
\<close>

record 'w IStateResidencyDataProvider =
  getInfo :: "(string \<times> PowerEntityStateInfo list) list"
  getResults :: "'w \<Rightarrow> StateResidencies \<Rightarrow> 'w \<times> StateResidencies"

text \<open>
  \<^verbatim>\<open>IRailEnergyDataProvider\<close>: both operations receive the vector to fill and return
  it together with their status.
\<close>

record 'w IRailEnergyDataProvider =
  railGetEnergyData ::
    "'w \<Rightarrow> int32_t list \<Rightarrow> EnergyData list \<Rightarrow> 'w \<times> ScopedAStatus \<times> EnergyData list"
  railGetRailInfo :: "'w \<Rightarrow> RailInfo list \<Rightarrow> 'w \<times> ScopedAStatus \<times> RailInfo list"

subsection \<open>The service object\<close>

record 'w PowerStats =
  mRailEnergyDataProvider :: "'w IRailEnergyDataProvider option"
  mPowerEntityInfos :: "PowerEntityInfo list"
  mStateResidencyDataProviders :: "'w IStateResidencyDataProvider list"

text \<open>
  The constructor is defaulted in the header: no rail provider, two empty vectors.
\<close>

definition PowerStats_new :: "'w PowerStats" where
  "PowerStats_new =
     \<lparr>mRailEnergyDataProvider = None, mPowerEntityInfos = [],
      mStateResidencyDataProviders = []\<rparr>"

definition setRailDataProvider ::
  "'w IRailEnergyDataProvider \<Rightarrow> 'w PowerStats \<Rightarrow> 'w PowerStats" where
  "setRailDataProvider p ps = ps\<lparr>mRailEnergyDataProvider := Some p\<rparr>"

text \<open>
  The loop of \<^verbatim>\<open>addStateResidencyDataProvider\<close> over \<^verbatim>\<open>p->getInfo()\<close>; \<open>eid\<close> is the
  \<^verbatim>\<open>int32_t\<close> counter \<^verbatim>\<open>id\<close>, incremented after each use. It starts at the size
  of the entity table, converted to \<^verbatim>\<open>int32_t\<close>.
\<close>

fun addEntities ::
  "'w IStateResidencyDataProvider \<Rightarrow> (string \<times> PowerEntityStateInfo list) list \<Rightarrow>
   int32_t \<Rightarrow> 'w PowerStats \<Rightarrow> 'w PowerStats" where
  "addEntities p [] eid ps = ps"
| "addEntities p ((entityName, sts) # rest) eid ps =
     addEntities p rest (eid + 1)
       (ps\<lparr>mPowerEntityInfos := mPowerEntityInfos ps @
              [\<lparr>powerEntityId = eid, powerEntityName = entityName, states = sts\<rparr>],
           mStateResidencyDataProviders := mStateResidencyDataProviders ps @ [p]\<rparr>)"

definition addStateResidencyDataProvider ::
  "'w IStateResidencyDataProvider \<Rightarrow> 'w PowerStats \<Rightarrow> 'w PowerStats" where
  "addStateResidencyDataProvider p ps =
     addEntities p (getInfo p) (of_nat (length (mPowerEntityInfos ps))) ps"

text \<open>
  The service is set up by a sequence of registrations on a new object.
\<close>

datatype 'w registration =
  SetRailDataProvider "'w IRailEnergyDataProvider"
| AddStateResidencyDataProvider "'w IStateResidencyDataProvider"

fun register :: "'w registration \<Rightarrow> 'w PowerStats \<Rightarrow> 'w PowerStats" where
  "register (SetRailDataProvider p) ps = setRailDataProvider p ps"
| "register (AddStateResidencyDataProvider p) ps = addStateResidencyDataProvider p ps"

fun registerAll :: "'w registration list \<Rightarrow> 'w PowerStats \<Rightarrow> 'w PowerStats" where
  "registerAll [] ps = ps"
| "registerAll (r # rs) ps = registerAll rs (register r ps)"

subsection \<open>The query facade\<close>

definition getEnergyData ::
  "'w PowerStats \<Rightarrow> 'w \<Rightarrow> int32_t list \<Rightarrow> EnergyData list \<Rightarrow>
   'w \<times> ScopedAStatus \<times> EnergyData list" where
  "getEnergyData ps w in_railIndices aidl_return =
     (case mRailEnergyDataProvider ps of
        None \<Rightarrow> (w, STATUS_OK, aidl_return)
      | Some p \<Rightarrow> railGetEnergyData p w in_railIndices aidl_return)"

definition getPowerEntityInfo ::
  "'w PowerStats \<Rightarrow> PowerEntityInfo list \<Rightarrow> ScopedAStatus \<times> PowerEntityInfo list" where
  "getPowerEntityInfo ps aidl_return = (STATUS_OK, mPowerEntityInfos ps)"

definition getRailInfo ::
  "'w PowerStats \<Rightarrow> 'w \<Rightarrow> RailInfo list \<Rightarrow> 'w \<times> ScopedAStatus \<times> RailInfo list" where
  "getRailInfo ps w aidl_return =
     (case mRailEnergyDataProvider ps of
        None \<Rightarrow> (w, STATUS_OK, aidl_return)
      | Some p \<Rightarrow> railGetRailInfo p w aidl_return)"

text \<open>
  What can go wrong below the level of status codes: \<^verbatim>\<open>operator[]\<close> of a vector
  past its end, and \<^verbatim>\<open>at\<close> of an unordered map on a missing key.
\<close>

datatype fault = vector_out_of_bounds | map_out_of_range

text \<open>
  What one iteration of the loop of \<^verbatim>\<open>getPowerEntityStateResidencyData\<close> did with its
  id (and the name of the entity of a valid id). The list of these events is not data
  of the program: it records which branches were taken, so that properties of the
  calls made can be stated.
\<close>

datatype event =
  SkippedInvalid int32_t
| CalledGetResults int32_t string
| AppendedResult int32_t string
| FailedToRetrieve int32_t string

record 'w loop_state =
  world :: 'w
  stateResidencies :: StateResidencies
  err :: binder_status_t
  aidl_return :: "PowerEntityStateResidencyResult list"
  events :: "event list"

text \<open>
  \<^verbatim>\<open>id < 0 || id >= mPowerEntityInfos.size()\<close>: the second comparison converts the id,
  which is not negative there, to \<^verbatim>\<open>size_t\<close>.
\<close>

definition invalidId :: "'w PowerStats \<Rightarrow> int32_t \<Rightarrow> bool" where
  "invalidId ps eid \<longleftrightarrow> sint eid < 0 \<or> length (mPowerEntityInfos ps) \<le> nat (sint eid)"

text \<open>
  Lines 92 to 94: the provider of the id is called when the map has no entry for the
  name of the entity. The index into the provider vector is not checked by the code.
\<close>

definition fetchResults ::
  "'w PowerStats \<Rightarrow> int32_t \<Rightarrow> string \<Rightarrow> 'w loop_state \<Rightarrow> fault + 'w loop_state" where
  "fetchResults ps eid name s =
     (if stateResidencies s name = None then
        (if nat (sint eid) < length (mStateResidencyDataProviders ps) then
           (case getResults (mStateResidencyDataProviders ps ! nat (sint eid))
                   (world s) (stateResidencies s) of
              (w', m') \<Rightarrow>
                Inr (s\<lparr>world := w', stateResidencies := m',
                       events := events s @ [CalledGetResults eid name]\<rparr>))
         else Inl vector_out_of_bounds)
      else Inr s)"

text \<open>Lines 97 to 110: append the results for the name, or record the failure.\<close>

definition appendResults :: "int32_t \<Rightarrow> string \<Rightarrow> 'w loop_state \<Rightarrow> 'w loop_state" where
  "appendResults eid name s =
     (case stateResidencies s name of
        Some stateResidency \<Rightarrow>
          s\<lparr>aidl_return := aidl_return s @
               [\<lparr>res_powerEntityId = eid, stateResidencyData = stateResidency\<rparr>],
            events := events s @ [AppendedResult eid name]\<rparr>
      | None \<Rightarrow>
          s\<lparr>err := (if err s = STATUS_OK then STATUS_FAILED_TRANSACTION else err s),
            events := events s @ [FailedToRetrieve eid name]\<rparr>)"

definition loopBody :: "'w PowerStats \<Rightarrow> int32_t \<Rightarrow> 'w loop_state \<Rightarrow> fault + 'w loop_state" where
  "loopBody ps eid s =
     (if invalidId ps eid then
        Inr (s\<lparr>err := STATUS_BAD_VALUE, events := events s @ [SkippedInvalid eid]\<rparr>)
      else
        (let name = powerEntityName (mPowerEntityInfos ps ! nat (sint eid)) in
         case fetchResults ps eid name s of
           Inl f \<Rightarrow> Inl f
         | Inr s' \<Rightarrow> Inr (appendResults eid name s')))"

fun residencyLoop :: "'w PowerStats \<Rightarrow> int32_t list \<Rightarrow> 'w loop_state \<Rightarrow> fault + 'w loop_state" where
  "residencyLoop ps [] s = Inr s"
| "residencyLoop ps (eid # ids) s =
     (case loopBody ps eid s of
        Inl f \<Rightarrow> Inl f
      | Inr s' \<Rightarrow> residencyLoop ps ids s')"

text \<open>
  The state in which the loop starts (lines 79 to 81): no error, an empty map; the
  vector \<^verbatim>\<open>*_aidl_return\<close> is the caller's.
\<close>

definition initState :: "'w \<Rightarrow> PowerEntityStateResidencyResult list \<Rightarrow> 'w loop_state" where
  "initState w out =
     \<lparr>world = w, stateResidencies = Map.empty, err = STATUS_OK, aidl_return = out,
      events = []\<rparr>"

text \<open>\<^verbatim>\<open>std::vector<int32_t> v(n); std::iota(std::begin(v), std::end(v), 0)\<close>\<close>

definition iota :: "nat \<Rightarrow> int32_t list" where
  "iota n = map of_nat [0..<n]"

text \<open>
  The result is the world after the provider calls, the status, the vector
  \<^verbatim>\<open>*_aidl_return\<close> (the caller's vector with the results appended) and the events.
\<close>

function getPowerEntityStateResidencyData ::
  "'w PowerStats \<Rightarrow> 'w \<Rightarrow> int32_t list \<Rightarrow> PowerEntityStateResidencyResult list \<Rightarrow>
   fault + ('w \<times> ScopedAStatus \<times> PowerEntityStateResidencyResult list \<times> event list)" where
  "getPowerEntityStateResidencyData ps w in_powerEntityIds out =
     (if in_powerEntityIds = [] \<and> mPowerEntityInfos ps \<noteq> [] then
        getPowerEntityStateResidencyData ps w (iota (length (mPowerEntityInfos ps))) out
      else
        (case residencyLoop ps in_powerEntityIds (initState w out) of
           Inl f \<Rightarrow> Inl f
         | Inr s \<Rightarrow> Inr (world s, err s, aidl_return s, events s)))"
  by pat_completeness auto
termination
  by (relation "measure (\<lambda>(ps, w, ids, out). if ids = [] then 1 else 0)")
     (auto simp: iota_def)

declare getPowerEntityStateResidencyData.simps [simp del]

subsection \<open>The dump\<close>

text \<open>
  \<^verbatim>\<open>std::unordered_map::emplace\<close> inserts only when the key is absent.
\<close>

definition emplace :: "('k \<rightharpoonup> 'v) \<Rightarrow> 'k \<Rightarrow> 'v \<Rightarrow> ('k \<rightharpoonup> 'v)" where
  "emplace m k v = (case m k of None \<Rightarrow> m(k \<mapsto> v) | Some old \<Rightarrow> m)"

definition addStateNames ::
  "(int32_t \<rightharpoonup> string) \<Rightarrow> PowerEntityStateInfo list \<Rightarrow> (int32_t \<rightharpoonup> string)" where
  "addStateNames entityStateNames sts =
     foldl (\<lambda>m state. emplace m (powerEntityStateId state) (powerEntityStateName state))
       entityStateNames sts"

text \<open>
  \<^verbatim>\<open>stateNames->at(info.powerEntityId)\<close> follows the \<^verbatim>\<open>emplace\<close> of that key, so it
  finds the map that was there before or the empty one just inserted.
\<close>

definition getEntityStateMaps ::
  "'w PowerStats \<Rightarrow> (int32_t \<rightharpoonup> string) \<times> (int32_t \<rightharpoonup> (int32_t \<rightharpoonup> string))" where
  "getEntityStateMaps ps =
     foldl (\<lambda>(entityNames, stateNames) info.
              (emplace entityNames (powerEntityId info) (powerEntityName info),
               (let entityStateNames =
                      (case stateNames (powerEntityId info) of
                         None \<Rightarrow> Map.empty
                       | Some m \<Rightarrow> m)
                in stateNames(powerEntityId info \<mapsto>
                     addStateNames entityStateNames (states info)))))
       (Map.empty, Map.empty) (snd (getPowerEntityInfo ps []))"

definition getRailEnergyMaps ::
  "'w PowerStats \<Rightarrow> 'w \<Rightarrow> 'w \<times> (int32_t \<rightharpoonup> string \<times> string)" where
  "getRailEnergyMaps ps w =
     (case getRailInfo ps w [] of
        (w', status, infos) \<Rightarrow>
          (w', foldl (\<lambda>railNames info.
                        emplace railNames (railIndex info) (subsysName info, railName info))
                 Map.empty infos))"

text \<open>
  What is written to the string stream: literal text, a number, or one call of
  \<^verbatim>\<open>StringPrintf\<close> with its format and arguments. The formats are named as in the
  source. \<open>MilliF x\<close> is the argument \<^verbatim>\<open>static_cast<float>(x) / 1000.0\<close>, \<open>U64\<close> is an
  argument printed with \<^verbatim>\<open>PRIu64\<close> and \<open>D64\<close> one printed with \<^verbatim>\<open>PRId64\<close>.
\<close>

datatype printf_arg = S string | MilliF int64_t | U64 int64_t | D64 int64_t

datatype format =
  rail_headerFormat | rail_dataFormat | rail_headerFormatDelta | rail_dataFormatDelta
| res_headerFormat | res_dataFormat | res_headerFormatDelta | res_dataFormatDelta

datatype oss_item = Str string | Num int | StringPrintf format "printf_arg list"

text \<open>
  \<^verbatim>\<open>boot_clock::time_point\<close> counts nanoseconds in 64 bits;
  \<^verbatim>\<open>duration_cast<milliseconds>\<close> divides by a million, truncating towards zero.
\<close>

type_synonym time_point = int64_t

definition elapsed_ms :: "time_point \<Rightarrow> time_point \<Rightarrow> int" where
  "elapsed_ms curTime prevTime =
     (let d = sint (curTime - prevTime)
      in if 0 \<le> d then d div 1000000 else - ((- d) div 1000000))"

text \<open>
  The function-local statics of the two dump functions. A \<open>prevTime\<close> of \<open>None\<close> is a
  static not yet initialised: its initialiser \<^verbatim>\<open>= curTime\<close> runs when control first
  passes the declaration. The vectors start empty.
\<close>

record statics =
  rail_prevEnergyData :: "EnergyData list"
  rail_prevTime :: "time_point option"
  res_prevResults :: "PowerEntityStateResidencyResult list"
  res_prevTime :: "time_point option"

definition statics_init :: statics where
  "statics_init =
     \<lparr>rail_prevEnergyData = [], rail_prevTime = None, res_prevResults = [],
      res_prevTime = None\<rparr>"

text \<open>Lines 175 to 178.\<close>

definition prevEnergyDataMap :: "EnergyData list \<Rightarrow> (int32_t \<rightharpoonup> int64_t)" where
  "prevEnergyDataMap prevEnergyData =
     foldl (\<lambda>m d. emplace m (energy_railIndex d) (energyUWs d)) Map.empty prevEnergyData"

text \<open>Lines 184 to 188.\<close>

definition deltaEnergy :: "(int32_t \<rightharpoonup> int64_t) \<Rightarrow> EnergyData \<Rightarrow> int64_t" where
  "deltaEnergy prevMap d =
     (case prevMap (energy_railIndex d) of
        None \<Rightarrow> 0
      | Some prev \<Rightarrow> energyUWs d - prev)"

text \<open>The loop of lines 180 to 193; \<^verbatim>\<open>railNames.at\<close> fails on a rail without a name.\<close>

fun railRowsDelta ::
  "(int32_t \<rightharpoonup> string \<times> string) \<Rightarrow> (int32_t \<rightharpoonup> int64_t) \<Rightarrow> EnergyData list \<Rightarrow>
   fault + oss_item list" where
  "railRowsDelta railNames prevMap [] = Inr []"
| "railRowsDelta railNames prevMap (d # ds) =
     (case railNames (energy_railIndex d) of
        None \<Rightarrow> Inl map_out_of_range
      | Some (subsys, rail) \<Rightarrow>
          (case railRowsDelta railNames prevMap ds of
             Inl f \<Rightarrow> Inl f
           | Inr rows \<Rightarrow>
               Inr (StringPrintf rail_dataFormatDelta
                      [S subsys, S rail, MilliF (energyUWs d), MilliF (deltaEnergy prevMap d)]
                    # rows)))"

text \<open>The loop of lines 200 to 205.\<close>

fun railRows :: "(int32_t \<rightharpoonup> string \<times> string) \<Rightarrow> EnergyData list \<Rightarrow> fault + oss_item list" where
  "railRows railNames [] = Inr []"
| "railRows railNames (d # ds) =
     (case railNames (energy_railIndex d) of
        None \<Rightarrow> Inl map_out_of_range
      | Some (subsys, rail) \<Rightarrow>
          (case railRows railNames ds of
             Inl f \<Rightarrow> Inl f
           | Inr rows \<Rightarrow>
               Inr (StringPrintf rail_dataFormat [S subsys, S rail, MilliF (energyUWs d)]
                    # rows)))"

definition rail_banner :: string where
  "rail_banner =
     CHR 0x0A # ''============= PowerStats HAL 2.0 rail energy =============='' @ [CHR 0x0A]"

definition rail_end_banner :: string where
  "rail_end_banner =
     ''========== End of PowerStats HAL 2.0 rail energy =========='' @ [CHR 0x0A]"

text \<open>
  \<open>now\<close> is what \<^verbatim>\<open>boot_clock::now()\<close> returns; the clock is read in delta mode only.
  The result is the world after the provider calls, the statics and the text.
\<close>

definition dumpRailEnergy ::
  "'w PowerStats \<Rightarrow> 'w \<Rightarrow> time_point \<Rightarrow> statics \<Rightarrow> bool \<Rightarrow>
   fault + ('w \<times> statics \<times> oss_item list)" where
  "dumpRailEnergy ps w now st delta =
     (case getRailEnergyMaps ps w of
        (w1, railNames) \<Rightarrow>
     (case getEnergyData ps w1 [] [] of
        (w2, status, energyData) \<Rightarrow>
     if delta then
       (let curTime = now;
            prevTime = (case rail_prevTime st of None \<Rightarrow> curTime | Some t \<Rightarrow> t)
        in case railRowsDelta railNames (prevEnergyDataMap (rail_prevEnergyData st))
                  energyData of
             Inl f \<Rightarrow> Inl f
           | Inr rows \<Rightarrow>
               Inr (w2,
                    st\<lparr>rail_prevEnergyData := energyData, rail_prevTime := Some curTime\<rparr>,
                    [Str rail_banner, Str ''Elapsed time: '',
                     Num (elapsed_ms curTime prevTime), Str '' ms'',
                     StringPrintf rail_headerFormatDelta
                       [S ''Subsys'', S ''Rail'', S ''Cumulative Energy'', S ''Delta   '']]
                    @ rows @ [Str rail_end_banner]))
     else
       (case railRows railNames energyData of
          Inl f \<Rightarrow> Inl f
        | Inr rows \<Rightarrow>
            Inr (w2, st,
                 [Str rail_banner,
                  StringPrintf rail_headerFormat
                    [S ''Subsys'', S ''Rail'', S ''Cumulative Energy'']]
                 @ rows @ [Str rail_end_banner]))))"

text \<open>Lines 243 to 252: the two-tier table of the previous results.\<close>

definition addPrevStates ::
  "(int32_t \<rightharpoonup> PowerEntityStateResidencyData) \<Rightarrow> PowerEntityStateResidencyData list \<Rightarrow>
   (int32_t \<rightharpoonup> PowerEntityStateResidencyData)" where
  "addPrevStates m srs =
     foldl (\<lambda>m stateResidency.
              emplace m (data_powerEntityStateId stateResidency) stateResidency) m srs"

definition prevResultsMap ::
  "PowerEntityStateResidencyResult list \<Rightarrow>
   (int32_t \<rightharpoonup> (int32_t \<rightharpoonup> PowerEntityStateResidencyData))" where
  "prevResultsMap prevResults =
     foldl (\<lambda>m prevResult.
              (let states0 =
                     (case m (res_powerEntityId prevResult) of
                        None \<Rightarrow> Map.empty
                      | Some old \<Rightarrow> old)
               in m(res_powerEntityId prevResult \<mapsto>
                    addPrevStates states0 (stateResidencyData prevResult))))
       Map.empty prevResults"

text \<open>Lines 269 to 285: the three deltas of one state.\<close>

definition stateDeltas ::
  "(int32_t \<rightharpoonup> PowerEntityStateResidencyData) option \<Rightarrow> PowerEntityStateResidencyData \<Rightarrow>
   int64_t \<times> int64_t \<times> int64_t" where
  "stateDeltas prevEntityResult stateResidency =
     (case prevEntityResult of
        None \<Rightarrow> (0, 0, 0)
      | Some prevStates \<Rightarrow>
          (case prevStates (data_powerEntityStateId stateResidency) of
             None \<Rightarrow> (0, 0, 0)
           | Some prev \<Rightarrow>
               (totalTimeInStateMs stateResidency - totalTimeInStateMs prev,
                totalStateEntryCount stateResidency - totalStateEntryCount prev,
                lastEntryTimestampMs stateResidency - lastEntryTimestampMs prev)))"

text \<open>The inner loop of lines 262 to 291, over the states of one result.\<close>

fun stateRowsDelta ::
  "string \<Rightarrow> (int32_t \<rightharpoonup> (int32_t \<rightharpoonup> string)) \<Rightarrow>
   (int32_t \<rightharpoonup> PowerEntityStateResidencyData) option \<Rightarrow> int32_t \<Rightarrow>
   PowerEntityStateResidencyData list \<Rightarrow> fault + oss_item list" where
  "stateRowsDelta entityName stateNames prevEntityResult eid [] = Inr []"
| "stateRowsDelta entityName stateNames prevEntityResult eid (sr # srs) =
     (case stateNames eid of
        None \<Rightarrow> Inl map_out_of_range
      | Some names \<Rightarrow>
     (case names (data_powerEntityStateId sr) of
        None \<Rightarrow> Inl map_out_of_range
      | Some stateName \<Rightarrow>
     (case stateDeltas prevEntityResult sr of
        (deltaTotalTime, deltaTotalCount, deltaTimestamp) \<Rightarrow>
     (case stateRowsDelta entityName stateNames prevEntityResult eid srs of
        Inl f \<Rightarrow> Inl f
      | Inr rows \<Rightarrow>
          Inr (StringPrintf res_dataFormatDelta
                 [S entityName, S stateName,
                  U64 (totalTimeInStateMs sr), D64 deltaTotalTime,
                  U64 (totalStateEntryCount sr), D64 deltaTotalCount,
                  U64 (lastEntryTimestampMs sr), D64 deltaTimestamp]
               # rows)))))"

text \<open>The outer loop of lines 255 to 292.\<close>

fun residencyRowsDelta ::
  "(int32_t \<rightharpoonup> string) \<Rightarrow> (int32_t \<rightharpoonup> (int32_t \<rightharpoonup> string)) \<Rightarrow>
   (int32_t \<rightharpoonup> (int32_t \<rightharpoonup> PowerEntityStateResidencyData)) \<Rightarrow>
   PowerEntityStateResidencyResult list \<Rightarrow> fault + oss_item list" where
  "residencyRowsDelta entityNames stateNames prevMap [] = Inr []"
| "residencyRowsDelta entityNames stateNames prevMap (result # results) =
     (case entityNames (res_powerEntityId result) of
        None \<Rightarrow> Inl map_out_of_range
      | Some entityName \<Rightarrow>
     (case stateRowsDelta entityName stateNames (prevMap (res_powerEntityId result))
             (res_powerEntityId result) (stateResidencyData result) of
        Inl f \<Rightarrow> Inl f
      | Inr rows \<Rightarrow>
     (case residencyRowsDelta entityNames stateNames prevMap results of
        Inl f \<Rightarrow> Inl f
      | Inr rest \<Rightarrow> Inr (rows @ rest))))"

text \<open>The loops of lines 299 to 309; both name lookups are inside the inner loop.\<close>

fun stateRows ::
  "(int32_t \<rightharpoonup> string) \<Rightarrow> (int32_t \<rightharpoonup> (int32_t \<rightharpoonup> string)) \<Rightarrow> int32_t \<Rightarrow>
   PowerEntityStateResidencyData list \<Rightarrow> fault + oss_item list" where
  "stateRows entityNames stateNames eid [] = Inr []"
| "stateRows entityNames stateNames eid (sr # srs) =
     (case entityNames eid of
        None \<Rightarrow> Inl map_out_of_range
      | Some entityName \<Rightarrow>
     (case stateNames eid of
        None \<Rightarrow> Inl map_out_of_range
      | Some names \<Rightarrow>
     (case names (data_powerEntityStateId sr) of
        None \<Rightarrow> Inl map_out_of_range
      | Some stateName \<Rightarrow>
     (case stateRows entityNames stateNames eid srs of
        Inl f \<Rightarrow> Inl f
      | Inr rows \<Rightarrow>
          Inr (StringPrintf res_dataFormat
                 [S entityName, S stateName, U64 (totalTimeInStateMs sr),
                  U64 (totalStateEntryCount sr), U64 (lastEntryTimestampMs sr)]
               # rows)))))"

fun residencyRows ::
  "(int32_t \<rightharpoonup> string) \<Rightarrow> (int32_t \<rightharpoonup> (int32_t \<rightharpoonup> string)) \<Rightarrow>
   PowerEntityStateResidencyResult list \<Rightarrow> fault + oss_item list" where
  "residencyRows entityNames stateNames [] = Inr []"
| "residencyRows entityNames stateNames (result # results) =
     (case stateRows entityNames stateNames (res_powerEntityId result)
             (stateResidencyData result) of
        Inl f \<Rightarrow> Inl f
      | Inr rows \<Rightarrow>
     (case residencyRows entityNames stateNames results of
        Inl f \<Rightarrow> Inl f
      | Inr rest \<Rightarrow> Inr (rows @ rest)))"

definition res_banner :: string where
  "res_banner =
     CHR 0x0A # ''============= PowerStats HAL 2.0 state residencies =============='' @
     [CHR 0x0A]"

definition res_end_banner :: string where
  "res_end_banner =
     ''========== End of PowerStats HAL 2.0 state residencies =========='' @ [CHR 0x0A]"

definition dumpStateResidency ::
  "'w PowerStats \<Rightarrow> 'w \<Rightarrow> time_point \<Rightarrow> statics \<Rightarrow> bool \<Rightarrow>
   fault + ('w \<times> statics \<times> oss_item list)" where
  "dumpStateResidency ps w now st delta =
     (case getEntityStateMaps ps of
        (entityNames, stateNames) \<Rightarrow>
     (case getPowerEntityStateResidencyData ps w [] [] of
        Inl f \<Rightarrow> Inl f
      | Inr (w1, status, results, evs) \<Rightarrow>
     if delta then
       (let curTime = now;
            prevTime = (case res_prevTime st of None \<Rightarrow> curTime | Some t \<Rightarrow> t)
        in case residencyRowsDelta entityNames stateNames
                  (prevResultsMap (res_prevResults st)) results of
             Inl f \<Rightarrow> Inl f
           | Inr rows \<Rightarrow>
               Inr (w1,
                    st\<lparr>res_prevResults := results, res_prevTime := Some curTime\<rparr>,
                    [Str res_banner, Str ''Elapsed time: '',
                     Num (elapsed_ms curTime prevTime), Str '' ms'',
                     StringPrintf res_headerFormatDelta
                       [S ''Entity'', S ''State'', S ''Total time'', S ''Delta   '',
                        S ''Total entries'', S ''Delta   '', S ''Last entry tstamp'',
                        S ''Delta '']]
                    @ rows @ [Str res_end_banner]))
     else
       (case residencyRows entityNames stateNames results of
          Inl f \<Rightarrow> Inl f
        | Inr rows \<Rightarrow>
            Inr (w1, st,
                 [Str res_banner,
                  StringPrintf res_headerFormat
                    [S ''Entity'', S ''State'', S ''Total time'', S ''Total entries'',
                     S ''Last entry tstamp'']]
                 @ rows @ [Str res_end_banner]))))"

text \<open>
  \<^verbatim>\<open>dump\<close>: \<open>args\<close> are the \<^verbatim>\<open>numArgs\<close> arguments; \<open>now1\<close> and \<open>now2\<close> are the two
  readings of the clock. The text is what is written to the file descriptor.
\<close>

definition dump ::
  "'w PowerStats \<Rightarrow> 'w \<Rightarrow> time_point \<Rightarrow> time_point \<Rightarrow> statics \<Rightarrow> string list \<Rightarrow>
   fault + ('w \<times> statics \<times> oss_item list \<times> binder_status_t)" where
  "dump ps w now1 now2 st args =
     (let delta = (length args = 1 \<and> args ! 0 = ''delta'')
      in case dumpStateResidency ps w now1 st delta of
           Inl f \<Rightarrow> Inl f
         | Inr (w1, st1, text1) \<Rightarrow>
        (case dumpRailEnergy ps w1 now2 st1 delta of
           Inl f \<Rightarrow> Inl f
         | Inr (w2, st2, text2) \<Rightarrow> Inr (w2, st2, text1 @ text2, STATUS_OK)))"

subsection \<open>Reading a request\<close>

text \<open>The number of entities that a registration adds.\<close>

fun numEntities :: "'w registration \<Rightarrow> nat" where
  "numEntities (SetRailDataProvider p) = 0"
| "numEntities (AddStateResidencyDataProvider p) = length (getInfo p)"

text \<open>The two tables of the registry have the same length.\<close>

definition registryInv :: "'w PowerStats \<Rightarrow> bool" where
  "registryInv ps \<longleftrightarrow>
     length (mStateResidencyDataProviders ps) = length (mPowerEntityInfos ps)"

text \<open>The ids that the loop runs over: those of the request, or all (lines 73 to 77).\<close>

definition effectiveIds :: "'w PowerStats \<Rightarrow> int32_t list \<Rightarrow> int32_t list" where
  "effectiveIds ps ids =
     (if ids = [] \<and> mPowerEntityInfos ps \<noteq> [] then iota (length (mPowerEntityInfos ps)) else ids)"

definition entityNameOf :: "'w PowerStats \<Rightarrow> int32_t \<Rightarrow> string" where
  "entityNameOf ps eid = powerEntityName (mPowerEntityInfos ps ! nat (sint eid))"

text \<open>
  Reading the events: the id that an iteration finished with, the id of a result
  appended, and the kinds of events.
\<close>

fun processedId :: "event \<Rightarrow> int32_t list" where
  "processedId (SkippedInvalid e) = [e]"
| "processedId (CalledGetResults e n) = []"
| "processedId (AppendedResult e n) = [e]"
| "processedId (FailedToRetrieve e n) = [e]"

fun appendedId :: "event \<Rightarrow> int32_t list" where
  "appendedId (AppendedResult e n) = [e]"
| "appendedId _ = []"

definition processed :: "event list \<Rightarrow> int32_t list" where
  "processed evs = concat (map processedId evs)"

definition appended :: "event list \<Rightarrow> int32_t list" where
  "appended evs = concat (map appendedId evs)"

fun isSkipped :: "event \<Rightarrow> bool" where
  "isSkipped (SkippedInvalid e) = True"
| "isSkipped _ = False"

fun isFailure :: "event \<Rightarrow> bool" where
  "isFailure (FailedToRetrieve e n) = True"
| "isFailure _ = False"

fun isCallFor :: "string \<Rightarrow> event \<Rightarrow> bool" where
  "isCallFor n (CalledGetResults e m) = (m = n)"
| "isCallFor n _ = False"

fun isFailureFor :: "string \<Rightarrow> event \<Rightarrow> bool" where
  "isFailureFor n (FailedToRetrieve e m) = (m = n)"
| "isFailureFor n _ = False"

text \<open>
  An event agrees with the registry: only invalid ids are skipped, everything else
  happens to a valid id under the name of its entity.
\<close>

fun eventOk :: "'w PowerStats \<Rightarrow> event \<Rightarrow> bool" where
  "eventOk ps (SkippedInvalid e) = invalidId ps e"
| "eventOk ps (CalledGetResults e n) = (\<not> invalidId ps e \<and> n = entityNameOf ps e)"
| "eventOk ps (AppendedResult e n) = (\<not> invalidId ps e \<and> n = entityNameOf ps e)"
| "eventOk ps (FailedToRetrieve e n) = (\<not> invalidId ps e \<and> n = entityNameOf ps e)"

text \<open>
  The priority rule of the two errors, read off the events: an invalid id wins over
  a failed retrieval.
\<close>

definition statusOf :: "event list \<Rightarrow> binder_status_t" where
  "statusOf evs =
     (if \<exists>ev \<in> set evs. isSkipped ev then STATUS_BAD_VALUE
      else if \<exists>ev \<in> set evs. isFailure ev then STATUS_FAILED_TRANSACTION
      else STATUS_OK)"

text \<open>
  Two assumptions on providers. The provider of an id supplies data when, whatever the
  world and the map it is given, the map it returns has an entry for the entity of the
  id. A provider only adds when it removes no entry from the map it is given.
\<close>

definition suppliesData :: "'w PowerStats \<Rightarrow> int32_t \<Rightarrow> bool" where
  "suppliesData ps eid \<longleftrightarrow>
     (\<forall>w m. snd (getResults (mStateResidencyDataProviders ps ! nat (sint eid)) w m)
               (entityNameOf ps eid) \<noteq> None)"

definition onlyAdds :: "'w IStateResidencyDataProvider \<Rightarrow> bool" where
  "onlyAdds p \<longleftrightarrow> (\<forall>w m n. m n \<noteq> None \<longrightarrow> snd (getResults p w m) n \<noteq> None)"

text \<open>
  Two invariants of the loop: the results appended are those the events tell, after
  the caller's vector; and a provider has been called for a name at most once more
  than retrievals for the name failed, not even that once while the map has no entry
  for the name.
\<close>

definition resultsInv :: "PowerEntityStateResidencyResult list \<Rightarrow> 'w loop_state \<Rightarrow> bool" where
  "resultsInv out s \<longleftrightarrow>
     (\<exists>new. aidl_return s = out @ new \<and> map res_powerEntityId new = appended (events s))"

definition callsInv :: "string \<Rightarrow> 'w loop_state \<Rightarrow> bool" where
  "callsInv n s \<longleftrightarrow>
     length (filter (isCallFor n) (events s)) \<le>
       length (filter (isFailureFor n) (events s)) +
       (if stateResidencies s n = None then 0 else 1)"

subsection \<open>Reading the dump\<close>

text \<open>
  The snapshots that a dump takes: the energy data are fetched after the rail names,
  the residency results in the world the dump starts in.
\<close>

definition currentEnergyData :: "'w PowerStats \<Rightarrow> 'w \<Rightarrow> EnergyData list" where
  "currentEnergyData ps w =
     snd (snd (getEnergyData ps (fst (getRailEnergyMaps ps w)) [] []))"

definition currentResults :: "'w PowerStats \<Rightarrow> 'w \<Rightarrow> PowerEntityStateResidencyResult list" where
  "currentResults ps w =
     (case getPowerEntityStateResidencyData ps w [] [] of
        Inl f \<Rightarrow> []
      | Inr (w1, status, results, evs) \<Rightarrow> results)"

definition worldAfterResidency :: "'w PowerStats \<Rightarrow> 'w \<Rightarrow> 'w" where
  "worldAfterResidency ps w =
     (case getPowerEntityStateResidencyData ps w [] [] of
        Inl f \<Rightarrow> w
      | Inr (w1, status, results, evs) \<Rightarrow> w1)"

text \<open>The records of a residency snapshot, one per entity id and state, and their keys.\<close>

definition flattenResults ::
  "PowerEntityStateResidencyResult list \<Rightarrow> (int32_t \<times> PowerEntityStateResidencyData) list" where
  "flattenResults results =
     concat (map (\<lambda>r. map (Pair (res_powerEntityId r)) (stateResidencyData r)) results)"

definition residencyKeys :: "PowerEntityStateResidencyResult list \<Rightarrow> (int32_t \<times> int32_t) set" where
  "residencyKeys results =
     set (map (\<lambda>(eid, sr). (eid, data_powerEntityStateId sr)) (flattenResults results))"

text \<open>
  The data rows of a delta dump, the delta arguments of such a row (the fourth of a
  rail row; the fourth, sixth and eighth of a residency row), and the numbers written.
\<close>

definition isDeltaRow :: "oss_item \<Rightarrow> bool" where
  "isDeltaRow item =
     (case item of
        StringPrintf f args \<Rightarrow> f = rail_dataFormatDelta \<or> f = res_dataFormatDelta
      | Str s \<Rightarrow> False
      | Num n \<Rightarrow> False)"

definition deltaRows :: "oss_item list \<Rightarrow> oss_item list" where
  "deltaRows items = filter isDeltaRow items"

definition rowDeltas :: "oss_item \<Rightarrow> printf_arg list" where
  "rowDeltas item =
     (case item of
        StringPrintf f args \<Rightarrow>
          if f = rail_dataFormatDelta then take 1 (drop 3 args)
          else if f = res_dataFormatDelta then
            take 1 (drop 3 args) @ take 1 (drop 5 args) @ take 1 (drop 7 args)
          else []
      | Str s \<Rightarrow> []
      | Num n \<Rightarrow> [])"

definition numbersOf :: "oss_item list \<Rightarrow> int list" where
  "numbersOf items =
     concat (map (\<lambda>item. case item of Num n \<Rightarrow> [n] | Str s \<Rightarrow> [] | StringPrintf f args \<Rightarrow> [])
       items)"

text \<open>A result has its names: that of its entity, and those of all its states.\<close>

definition namesKnown ::
  "(int32_t \<rightharpoonup> string) \<Rightarrow> (int32_t \<rightharpoonup> (int32_t \<rightharpoonup> string)) \<Rightarrow>
   PowerEntityStateResidencyResult \<Rightarrow> bool" where
  "namesKnown entityNames stateNames r \<longleftrightarrow>
     entityNames (res_powerEntityId r) \<noteq> None \<and>
     (\<forall>sr \<in> set (stateResidencyData r).
        \<exists>names. stateNames (res_powerEntityId r) = Some names \<and>
                names (data_powerEntityStateId sr) \<noteq> None)"

subsection \<open>Two small configurations\<close>

text \<open>
  The world is the number of provider calls made so far. \<open>exSoc\<close> owns two entities
  and fills the map for both in one call, with counters that grow with the world;
  \<open>exModem\<close> owns one entity and never supplies data; \<open>exRail\<close> reports two rails.
\<close>

definition exCpuData :: "nat \<Rightarrow> PowerEntityStateResidencyData list" where
  "exCpuData w =
     [\<lparr>data_powerEntityStateId = 0, totalTimeInStateMs = 100 * of_nat w,
       totalStateEntryCount = of_nat w, lastEntryTimestampMs = 7\<rparr>]"

definition exSoc :: "nat IStateResidencyDataProvider" where
  "exSoc =
     \<lparr>getInfo =
        [(''CPU'', [\<lparr>powerEntityStateId = 0, powerEntityStateName = ''IDLE''\<rparr>]),
         (''GPU'', [])],
      getResults = (\<lambda>w m. (Suc w, m(''CPU'' \<mapsto> exCpuData w, ''GPU'' \<mapsto> [])))\<rparr>"

definition exModem :: "nat IStateResidencyDataProvider" where
  "exModem = \<lparr>getInfo = [(''MODEM'', [])], getResults = (\<lambda>w m. (Suc w, m))\<rparr>"

definition exPowerStats :: "nat PowerStats" where
  "exPowerStats =
     registerAll [AddStateResidencyDataProvider exSoc, AddStateResidencyDataProvider exModem]
       PowerStats_new"

definition exRail :: "nat IRailEnergyDataProvider" where
  "exRail =
     \<lparr>railGetEnergyData =
        (\<lambda>w indices out.
           (Suc w, STATUS_OK,
            out @ [\<lparr>energy_railIndex = 0, energyUWs = 1000 + 500 * of_nat w\<rparr>,
                   \<lparr>energy_railIndex = 1, energyUWs = 42\<rparr>])),
      railGetRailInfo =
        (\<lambda>w out.
           (w, STATUS_OK,
            out @ [\<lparr>railIndex = 0, subsysName = ''CPU'', railName = ''VDD_CPU''\<rparr>,
                   \<lparr>railIndex = 1, subsysName = ''MEM'', railName = ''VDD_MEM''\<rparr>]))\<rparr>"

definition exDumpStats :: "nat PowerStats" where
  "exDumpStats =
     registerAll [SetRailDataProvider exRail, AddStateResidencyDataProvider exSoc]
       PowerStats_new"

text \<open>
  Statics after an earlier delta dump that saw rail 0 at 1000 \<open>\<mu>\<close>Ws and entity 1 with
  no state, at 5 ms.
\<close>

definition exStatics :: statics where
  "exStatics =
     \<lparr>rail_prevEnergyData = [\<lparr>energy_railIndex = 0, energyUWs = 1000\<rparr>],
      rail_prevTime = Some 5000000,
      res_prevResults = [\<lparr>res_powerEntityId = 1, stateResidencyData = []\<rparr>],
      res_prevTime = Some 5000000\<rparr>"

section \<open>Properties\<close>

subsection \<open>Entity ids and the registry\<close>

lemma sint_of_nat_small: "i < 2 ^ 31 \<Longrightarrow> sint (of_nat i :: 32 word) = int i"
  by (simp add: signed_of_nat signed_take_bit_int_eq_self)

lemma length_iota [simp]: "length (iota n) = n"
  by (simp add: iota_def)

lemma nth_iota: "i < n \<Longrightarrow> iota n ! i = of_nat i"
  by (simp add: iota_def)

lemma iota_Suc: "iota (Suc n) = iota n @ [of_nat n]"
  by (simp add: iota_def)

lemma distinct_iota: "n \<le> 2 ^ 32 \<Longrightarrow> distinct (iota n)"
proof -
  assume n: "n \<le> 2 ^ 32"
  have "inj_on (of_nat :: nat \<Rightarrow> 32 word) {0..<n}"
  proof (rule inj_onI)
    fix x y assume xy: "x \<in> {0..<n}" "y \<in> {0..<n}"
      and eq: "(of_nat x :: 32 word) = of_nat y"
    from xy n have "x < 2 ^ LENGTH(32)" "y < 2 ^ LENGTH(32)" by simp_all
    with eq show "x = y"
      by (metis of_nat_inverse)
  qed
  then show ?thesis by (simp add: iota_def distinct_map)
qed

lemma sint_iota: "n \<le> 2 ^ 31 \<Longrightarrow> map sint (iota n) = map int [0..<n]"
  by (simp add: iota_def sint_of_nat_small)

lemma addEntities_rail [simp]:
  "mRailEnergyDataProvider (addEntities p xs eid ps) = mRailEnergyDataProvider ps"
  by (induction p xs eid ps rule: addEntities.induct) simp_all

lemma addEntities_providers:
  "mStateResidencyDataProviders (addEntities p xs eid ps) =
     mStateResidencyDataProviders ps @ replicate (length xs) p"
  by (induction p xs eid ps rule: addEntities.induct) (simp_all add: replicate_app_Cons_same)

lemma addEntities_length:
  "length (mPowerEntityInfos (addEntities p xs eid ps)) = length (mPowerEntityInfos ps) + length xs"
  by (induction p xs eid ps rule: addEntities.induct) simp_all

lemma addEntities_take:
  "take (length (mPowerEntityInfos ps)) (mPowerEntityInfos (addEntities p xs eid ps)) =
     mPowerEntityInfos ps"
proof (induction p xs eid ps rule: addEntities.induct)
  case (1 p eid ps)
  show ?case by simp
next
  case (2 p entityName sts rest eid ps)
  let ?ps = "ps\<lparr>mPowerEntityInfos := mPowerEntityInfos ps @
              [\<lparr>powerEntityId = eid, powerEntityName = entityName, states = sts\<rparr>],
           mStateResidencyDataProviders := mStateResidencyDataProviders ps @ [p]\<rparr>"
  have "take (length (mPowerEntityInfos ps)) (mPowerEntityInfos (addEntities p rest (eid + 1) ?ps)) =
        take (length (mPowerEntityInfos ps)) (take (length (mPowerEntityInfos ?ps)) (mPowerEntityInfos (addEntities p rest (eid + 1) ?ps)))"
    by simp
  also have "\<dots> = take (length (mPowerEntityInfos ps)) (mPowerEntityInfos ?ps)"
    by (simp only: "2.IH")
  finally show ?case by simp
qed

lemma addEntities_names:
  "map powerEntityName (mPowerEntityInfos (addEntities p xs eid ps)) =
     map powerEntityName (mPowerEntityInfos ps) @ map fst xs"
  by (induction p xs eid ps rule: addEntities.induct) simp_all

lemma addEntities_ids:
  "eid = of_nat (length (mPowerEntityInfos ps)) \<Longrightarrow>
   map powerEntityId (mPowerEntityInfos ps) = iota (length (mPowerEntityInfos ps)) \<Longrightarrow>
   map powerEntityId (mPowerEntityInfos (addEntities p xs eid ps)) =
     iota (length (mPowerEntityInfos ps) + length xs)"
proof (induction p xs eid ps rule: addEntities.induct)
  case (1 p eid ps)
  then show ?case by simp
next
  case (2 p entityName sts rest eid ps)
  then show ?case by (simp add: iota_Suc)
qed

lemma exPowerStats_eq:
  "exPowerStats =
     \<lparr>mRailEnergyDataProvider = None,
      mPowerEntityInfos =
        [\<lparr>powerEntityId = 0, powerEntityName = ''CPU'',
          states = [\<lparr>powerEntityStateId = 0, powerEntityStateName = ''IDLE''\<rparr>]\<rparr>,
         \<lparr>powerEntityId = 1, powerEntityName = ''GPU'', states = []\<rparr>,
         \<lparr>powerEntityId = 2, powerEntityName = ''MODEM'', states = []\<rparr>],
      mStateResidencyDataProviders = [exSoc, exSoc, exModem]\<rparr>"
  by (simp add: exPowerStats_def PowerStats_new_def addStateResidencyDataProvider_def
      exSoc_def exModem_def)

lemma register_take:
  "take (length (mPowerEntityInfos ps)) (mPowerEntityInfos (register r ps)) = mPowerEntityInfos ps"
  by (cases r) (simp_all add: setRailDataProvider_def addStateResidencyDataProvider_def addEntities_take)

lemma register_providers_take:
  "take (length (mStateResidencyDataProviders ps))
     (mStateResidencyDataProviders (register r ps)) = mStateResidencyDataProviders ps"
  by (cases r) (simp_all add: setRailDataProvider_def addStateResidencyDataProvider_def
      addEntities_providers)

lemma register_length:
  "length (mPowerEntityInfos (register r ps)) = length (mPowerEntityInfos ps) + numEntities r"
  by (cases r) (simp_all add: setRailDataProvider_def addStateResidencyDataProvider_def addEntities_length)

lemma register_ids:
  "map powerEntityId (mPowerEntityInfos ps) = iota (length (mPowerEntityInfos ps)) \<Longrightarrow>
   map powerEntityId (mPowerEntityInfos (register r ps)) =
     iota (length (mPowerEntityInfos (register r ps)))"
  by (cases r) (simp_all add: setRailDataProvider_def addStateResidencyDataProvider_def
      addEntities_ids addEntities_length)

lemma register_inv: "registryInv ps \<Longrightarrow> registryInv (register r ps)"
  by (cases r) (simp_all add: registryInv_def setRailDataProvider_def
      addStateResidencyDataProvider_def addEntities_providers addEntities_length)

lemma registerAll_ids:
  "map powerEntityId (mPowerEntityInfos ps) = iota (length (mPowerEntityInfos ps)) \<Longrightarrow>
   map powerEntityId (mPowerEntityInfos (registerAll rs ps)) =
     iota (length (mPowerEntityInfos (registerAll rs ps)))"
  by (induction rs arbitrary: ps) (simp_all add: register_ids)

lemma registerAll_length:
  "length (mPowerEntityInfos (registerAll rs ps)) =
     length (mPowerEntityInfos ps) + sum_list (map numEntities rs)"
  by (induction rs arbitrary: ps) (simp_all add: register_length)

lemma registerAll_inv: "registryInv ps \<Longrightarrow> registryInv (registerAll rs ps)"
  by (induction rs arbitrary: ps) (simp_all add: register_inv)

lemma registryInv_new: "registryInv PowerStats_new"
  by (simp add: registryInv_def PowerStats_new_def)

subsection \<open>The loop of \<^verbatim>\<open>getPowerEntityStateResidencyData\<close>\<close>

lemma get_eq:
  "getPowerEntityStateResidencyData ps w ids out =
     (case residencyLoop ps (effectiveIds ps ids) (initState w out) of
        Inl f \<Rightarrow> Inl f
      | Inr s \<Rightarrow> Inr (world s, err s, aidl_return s, events s))"
proof (cases "ids = [] \<and> mPowerEntityInfos ps \<noteq> []")
  case True
  then have ne: "iota (length (mPowerEntityInfos ps)) \<noteq> []"
    by (simp add: iota_def)
  have "getPowerEntityStateResidencyData ps w ids out =
      getPowerEntityStateResidencyData ps w (iota (length (mPowerEntityInfos ps))) out"
    using True by (subst getPowerEntityStateResidencyData.simps) simp
  also have "\<dots> = (case residencyLoop ps (iota (length (mPowerEntityInfos ps))) (initState w out) of
        Inl f \<Rightarrow> Inl f
      | Inr s \<Rightarrow> Inr (world s, err s, aidl_return s, events s))"
    using ne by (subst getPowerEntityStateResidencyData.simps) (simp add: initState_def)
  finally show ?thesis using True by (simp add: effectiveIds_def)
next
  case False
  then show ?thesis
    by (subst getPowerEntityStateResidencyData.simps) (auto simp add: effectiveIds_def initState_def)
qed

text \<open>The loop returns when the provider table is as long as the entity table.\<close>

lemma registryInv_in_bounds:
  "registryInv ps \<Longrightarrow> \<not> invalidId ps eid \<Longrightarrow> nat (sint eid) < length (mStateResidencyDataProviders ps)"
  by (simp add: registryInv_def invalidId_def)

lemma fetchResults_total:
  "registryInv ps \<Longrightarrow> \<not> invalidId ps eid \<Longrightarrow> \<exists>s'. fetchResults ps eid name s = Inr s'"
  by (simp add: fetchResults_def registryInv_in_bounds split: prod.split)

lemma loopBody_total: "registryInv ps \<Longrightarrow> \<exists>s'. loopBody ps eid s = Inr s'"
proof (cases "invalidId ps eid")
  case True
  then show ?thesis by (simp add: loopBody_def)
next
  case False
  assume "registryInv ps"
  from fetchResults_total [OF this False] obtain s' where
    "fetchResults ps eid (powerEntityName (mPowerEntityInfos ps ! nat (sint eid))) s = Inr s'"
    by blast
  with False show ?thesis by (simp add: loopBody_def)
qed

lemma residencyLoop_total: "registryInv ps \<Longrightarrow> \<exists>s'. residencyLoop ps ids s = Inr s'"
proof (induction ids arbitrary: s)
  case Nil
  show ?case by simp
next
  case (Cons eid ids)
  from loopBody_total [OF Cons.prems] obtain s1 where "loopBody ps eid s = Inr s1" by blast
  with Cons.IH [OF Cons.prems, of s1] show ?case by simp
qed

lemma get_total:
  "registryInv ps \<Longrightarrow> \<exists>res. getPowerEntityStateResidencyData ps w ids out = Inr res"
  using residencyLoop_total [of ps "effectiveIds ps ids" "initState w out"]
  by (auto simp: get_eq)

lemma processed_append [simp]: "processed (xs @ ys) = processed xs @ processed ys"
  by (simp add: processed_def)

lemma appended_append [simp]: "appended (xs @ ys) = appended xs @ appended ys"
  by (simp add: appended_def)

lemma processed_simps [simp]:
  "processed [] = []" "processed (ev # evs) = processedId ev @ processed evs"
  by (simp_all add: processed_def)

lemma appended_simps [simp]:
  "appended [] = []" "appended (ev # evs) = appendedId ev @ appended evs"
  by (simp_all add: appended_def)

text \<open>The shape of one iteration.\<close>

lemma fetchResults_cases:
  assumes "fetchResults ps eid name s = Inr s1"
  shows "(stateResidencies s name \<noteq> None \<and> s1 = s) \<or>
         (stateResidencies s name = None \<and>
          nat (sint eid) < length (mStateResidencyDataProviders ps) \<and>
          s1 = s\<lparr>world := fst (getResults (mStateResidencyDataProviders ps ! nat (sint eid))
                                 (world s) (stateResidencies s)),
                 stateResidencies := snd (getResults (mStateResidencyDataProviders ps ! nat (sint eid))
                                 (world s) (stateResidencies s)),
                 events := events s @ [CalledGetResults eid name]\<rparr>)"
  using assms by (auto simp: fetchResults_def split: if_splits prod.splits)

lemma appendResults_cases:
  "(\<exists>d. stateResidencies s name = Some d \<and>
        appendResults eid name s =
          s\<lparr>aidl_return := aidl_return s @ [\<lparr>res_powerEntityId = eid, stateResidencyData = d\<rparr>],
            events := events s @ [AppendedResult eid name]\<rparr>) \<or>
   (stateResidencies s name = None \<and>
        appendResults eid name s =
          s\<lparr>err := (if err s = STATUS_OK then STATUS_FAILED_TRANSACTION else err s),
            events := events s @ [FailedToRetrieve eid name]\<rparr>)"
  by (cases "stateResidencies s name") (simp_all add: appendResults_def)

lemma loopBody_cases:
  assumes "loopBody ps eid s = Inr s'"
  shows "(invalidId ps eid \<and>
          s' = s\<lparr>err := STATUS_BAD_VALUE, events := events s @ [SkippedInvalid eid]\<rparr>) \<or>
         (\<not> invalidId ps eid \<and>
          (\<exists>s1. fetchResults ps eid (entityNameOf ps eid) s = Inr s1 \<and>
                s' = appendResults eid (entityNameOf ps eid) s1))"
  using assms by (auto simp: loopBody_def entityNameOf_def Let_def split: if_splits sum.splits)

lemma residencyLoop_invariant:
  assumes step: "\<And>eid s s'. P s \<Longrightarrow> loopBody ps eid s = Inr s' \<Longrightarrow> P s'"
    and init: "P s" and run: "residencyLoop ps ids s = Inr s'"
  shows "P s'"
  using init run
proof (induction ids arbitrary: s)
  case Nil
  then show ?case by simp
next
  case (Cons eid ids)
  from Cons.prems(2) obtain s1 where s1: "loopBody ps eid s = Inr s1"
    and rest: "residencyLoop ps ids s1 = Inr s'"
    by (auto split: sum.splits)
  from step [OF Cons.prems(1) s1] have "P s1" .
  from Cons.IH [OF this rest] show ?case .
qed

text \<open>Status invariant.\<close>

lemma statusOf_snoc_skipped [simp]: "statusOf (evs @ [SkippedInvalid e]) = STATUS_BAD_VALUE"
  by (simp add: statusOf_def)

lemma statusOf_snoc_call [simp]: "statusOf (evs @ [CalledGetResults e n]) = statusOf evs"
  by (simp add: statusOf_def)

lemma statusOf_snoc_appended [simp]: "statusOf (evs @ [AppendedResult e n]) = statusOf evs"
  by (simp add: statusOf_def)

lemma statusOf_snoc_failed [simp]:
  "statusOf (evs @ [FailedToRetrieve e n]) =
     (if statusOf evs = STATUS_OK then STATUS_FAILED_TRANSACTION else statusOf evs)"
  by (auto simp add: statusOf_def)

lemma loopBody_status:
  assumes "err s = statusOf (events s)" "loopBody ps eid s = Inr s'"
  shows "err s' = statusOf (events s')"
  using loopBody_cases [OF assms(2)]
proof (elim disjE conjE exE)
  assume "s' = s\<lparr>err := STATUS_BAD_VALUE, events := events s @ [SkippedInvalid eid]\<rparr>"
  then show ?thesis by simp
next
  fix s1
  assume f: "fetchResults ps eid (entityNameOf ps eid) s = Inr s1"
    and a: "s' = appendResults eid (entityNameOf ps eid) s1"
  from fetchResults_cases [OF f] assms(1) have s1: "err s1 = statusOf (events s1)"
    by auto
  from appendResults_cases [of s1 "entityNameOf ps eid" eid] a s1 show ?thesis
    by auto
qed

text \<open>Events are consistent with the registry.\<close>

lemma loopBody_eventOk:
  assumes "\<forall>ev \<in> set (events s). eventOk ps ev" "loopBody ps eid s = Inr s'"
  shows "\<forall>ev \<in> set (events s'). eventOk ps ev"
  using loopBody_cases [OF assms(2)]
proof (elim disjE conjE exE)
  assume "invalidId ps eid"
    "s' = s\<lparr>err := STATUS_BAD_VALUE, events := events s @ [SkippedInvalid eid]\<rparr>"
  with assms(1) show ?thesis by simp
next
  fix s1
  assume v: "\<not> invalidId ps eid"
    and f: "fetchResults ps eid (entityNameOf ps eid) s = Inr s1"
    and a: "s' = appendResults eid (entityNameOf ps eid) s1"
  from fetchResults_cases [OF f] assms(1) v have s1: "\<forall>ev \<in> set (events s1). eventOk ps ev"
    by auto
  from appendResults_cases [of s1 "entityNameOf ps eid" eid] a s1 v show ?thesis
    by auto
qed

text \<open>Every id is processed, in order.\<close>

lemma loopBody_processed:
  assumes "loopBody ps eid s = Inr s'"
  shows "processed (events s') = processed (events s) @ [eid]"
  using loopBody_cases [OF assms]
proof (elim disjE conjE exE)
  assume "s' = s\<lparr>err := STATUS_BAD_VALUE, events := events s @ [SkippedInvalid eid]\<rparr>"
  then show ?thesis by simp
next
  fix s1
  assume f: "fetchResults ps eid (entityNameOf ps eid) s = Inr s1"
    and a: "s' = appendResults eid (entityNameOf ps eid) s1"
  from fetchResults_cases [OF f] have s1: "processed (events s1) = processed (events s)"
    by auto
  from appendResults_cases [of s1 "entityNameOf ps eid" eid] a s1 show ?thesis
    by auto
qed

lemma residencyLoop_processed:
  "residencyLoop ps ids s = Inr s' \<Longrightarrow> processed (events s') = processed (events s) @ ids"
proof (induction ids arbitrary: s)
  case Nil
  then show ?case by simp
next
  case (Cons eid ids)
  from Cons.prems obtain s1 where s1: "loopBody ps eid s = Inr s1"
    and rest: "residencyLoop ps ids s1 = Inr s'"
    by (auto split: sum.splits)
  from Cons.IH [OF rest] loopBody_processed [OF s1] show ?case by simp
qed

lemma loopBody_results:
  assumes "resultsInv out s" "loopBody ps eid s = Inr s'"
  shows "resultsInv out s'"
  using loopBody_cases [OF assms(2)]
proof (elim disjE conjE exE)
  assume "s' = s\<lparr>err := STATUS_BAD_VALUE, events := events s @ [SkippedInvalid eid]\<rparr>"
  with assms(1) show ?thesis by (simp add: resultsInv_def)
next
  fix s1
  assume f: "fetchResults ps eid (entityNameOf ps eid) s = Inr s1"
    and a: "s' = appendResults eid (entityNameOf ps eid) s1"
  from fetchResults_cases [OF f] assms(1) have s1: "resultsInv out s1"
    by (auto simp: resultsInv_def)
  from appendResults_cases [of s1 "entityNameOf ps eid" eid] a s1 show ?thesis
    by (auto simp: resultsInv_def)
qed

text \<open>A provider that supplies the data of an entity never makes its retrieval fail.\<close>

lemma loopBody_supplies:
  assumes sup: "suppliesData ps e0"
    and inv: "\<forall>n. FailedToRetrieve e0 n \<notin> set (events s)"
    and body: "loopBody ps eid s = Inr s'"
  shows "\<forall>n. FailedToRetrieve e0 n \<notin> set (events s')"
  using loopBody_cases [OF body]
proof (elim disjE conjE exE)
  assume "s' = s\<lparr>err := STATUS_BAD_VALUE, events := events s @ [SkippedInvalid eid]\<rparr>"
  with inv show ?thesis by simp
next
  fix s1
  assume f: "fetchResults ps eid (entityNameOf ps eid) s = Inr s1"
    and a: "s' = appendResults eid (entityNameOf ps eid) s1"
  from fetchResults_cases [OF f] inv
  have s1: "\<forall>n. FailedToRetrieve e0 n \<notin> set (events s1)"
    by auto
  from fetchResults_cases [OF f] sup
  have present: "eid = e0 \<Longrightarrow> stateResidencies s1 (entityNameOf ps eid) \<noteq> None"
    by (auto simp: suppliesData_def)
  from appendResults_cases [of s1 "entityNameOf ps eid" eid] a s1 present show ?thesis
    by auto
qed

text \<open>Valid ids are either answered or failed.\<close>

lemma valid_processed_count:
  "\<forall>ev \<in> set evs. eventOk ps ev \<Longrightarrow>
   length (filter (\<lambda>e. \<not> invalidId ps e) (processed evs)) =
     length (appended evs) + length (filter isFailure evs)"
proof (induction evs)
  case Nil
  show ?case by simp
next
  case (Cons ev evs)
  then show ?case by (cases ev) simp_all
qed

lemma skipped_iff_invalid:
  "\<forall>ev \<in> set evs. eventOk ps ev \<Longrightarrow>
   (\<exists>ev \<in> set evs. isSkipped ev) \<longleftrightarrow> (\<exists>e \<in> set (processed evs). invalidId ps e)"
proof (induction evs)
  case Nil
  show ?case by simp
next
  case (Cons ev evs)
  then show ?case by (cases ev) auto
qed

lemma answered_or_failed:
  "\<forall>ev \<in> set evs. eventOk ps ev \<Longrightarrow> e \<in> set (processed evs) \<Longrightarrow> \<not> invalidId ps e \<Longrightarrow>
   e \<in> set (appended evs) \<or> (\<exists>n. FailedToRetrieve e n \<in> set evs)"
proof (induction evs)
  case Nil
  then show ?case by simp
next
  case (Cons ev evs)
  then show ?case by (cases ev) auto
qed

lemma loopBody_calls:
  assumes adds: "\<forall>p \<in> set (mStateResidencyDataProviders ps). onlyAdds p"
    and inv: "callsInv n s" and body: "loopBody ps eid s = Inr s'"
  shows "callsInv n s'"
  using loopBody_cases [OF body]
proof (elim disjE conjE exE)
  assume "s' = s\<lparr>err := STATUS_BAD_VALUE, events := events s @ [SkippedInvalid eid]\<rparr>"
  with inv show ?thesis by (simp add: callsInv_def)
next
  fix s1
  let ?m = "entityNameOf ps eid"
  assume f: "fetchResults ps eid ?m s = Inr s1"
    and a: "s' = appendResults eid ?m s1"
  from fetchResults_cases [OF f] show ?thesis
  proof (elim disjE conjE)
    assume m: "stateResidencies s ?m \<noteq> None" and "s1 = s"
    with appendResults_cases [of s1 ?m eid] a inv show ?thesis
      by (auto simp: callsInv_def)
  next
    let ?p = "mStateResidencyDataProviders ps ! nat (sint eid)"
    let ?r = "getResults ?p (world s) (stateResidencies s)"
    assume m: "stateResidencies s ?m = None"
      and b: "nat (sint eid) < length (mStateResidencyDataProviders ps)"
      and s1: "s1 = s\<lparr>world := fst ?r, stateResidencies := snd ?r,
                 events := events s @ [CalledGetResults eid ?m]\<rparr>"
    from b adds have "onlyAdds ?p" by simp
    then have keep: "stateResidencies s n \<noteq> None \<Longrightarrow> snd ?r n \<noteq> None"
      by (simp add: onlyAdds_def)
    show ?thesis
    proof (cases "n = ?m")
      case True
      with appendResults_cases [of s1 ?m eid] a inv m s1 show ?thesis
        by (auto simp: callsInv_def)
    next
      case False
      with appendResults_cases [of s1 ?m eid] a inv s1 keep show ?thesis
        by (auto simp: callsInv_def split: if_splits)
    qed
  qed
qed

lemma get_run:
  assumes inv: "registryInv ps"
  obtains s' where
    "getPowerEntityStateResidencyData ps w ids out =
       Inr (world s', err s', aidl_return s', events s')"
    and "err s' = statusOf (events s')"
    and "\<forall>ev \<in> set (events s'). eventOk ps ev"
    and "processed (events s') = effectiveIds ps ids"
    and "resultsInv out s'"
proof -
  let ?s = "initState w out"
  from residencyLoop_total [OF inv] obtain s' where
    run: "residencyLoop ps (effectiveIds ps ids) ?s = Inr s'"
    by blast
  have 1: "getPowerEntityStateResidencyData ps w ids out =
       Inr (world s', err s', aidl_return s', events s')"
    by (simp add: get_eq run)
  have 2: "err s' = statusOf (events s')"
  proof (rule residencyLoop_invariant [where P = "\<lambda>s. err s = statusOf (events s)", OF _ _ run])
    show "err ?s = statusOf (events ?s)"
      by (simp add: initState_def statusOf_def)
  qed (rule loopBody_status)
  have 3: "\<forall>ev \<in> set (events s'). eventOk ps ev"
  proof (rule residencyLoop_invariant
          [where P = "\<lambda>s. \<forall>ev \<in> set (events s). eventOk ps ev", OF _ _ run])
    show "\<forall>ev \<in> set (events ?s). eventOk ps ev"
      by (simp add: initState_def)
  qed (rule loopBody_eventOk)
  have 4: "processed (events s') = effectiveIds ps ids"
    using residencyLoop_processed [OF run] by (simp add: initState_def)
  have 5: "resultsInv out s'"
  proof (rule residencyLoop_invariant [where P = "resultsInv out", OF _ _ run])
    show "resultsInv out ?s"
      by (simp add: initState_def resultsInv_def)
  qed (rule loopBody_results)
  from 1 2 3 4 5 show thesis by (rule that)
qed

lemma effectiveIds_nonempty [simp]: "ids \<noteq> [] \<Longrightarrow> effectiveIds ps ids = ids"
  by (simp add: effectiveIds_def)

lemma iota_3: "iota 3 = [0, 1, 2]"
  by (simp add: iota_def numeral_3_eq_3)

lemma iota_valid:
  assumes "length (mPowerEntityInfos ps) \<le> 2 ^ 31" "e \<in> set (iota (length (mPowerEntityInfos ps)))"
  shows "\<not> invalidId ps e"
proof -
  from assms(2) obtain i where i: "i < length (mPowerEntityInfos ps)" and e: "e = of_nat i"
    by (auto simp: iota_def)
  from i assms(1) have "i < 2 ^ 31" by simp
  then have "sint e = int i" unfolding e by (rule sint_of_nat_small)
  with i show ?thesis by (simp add: invalidId_def)
qed

text \<open>
  Claim C1. With at least one entity registered, a request with an empty id list
  returns what the request with the full list \<open>0, 1, \<dots>, N - 1\<close> returns from the
  same state of the world: the same results, the same status (and the same calls of
  providers). Up to \<open>2\<^sup>3\<^sup>1\<close> entities the full list reads \<open>0 \<dots> N - 1\<close> as signed
  numbers, and all its ids are valid.
\<close>

theorem empty_request_expands_to_all_ids:
  "mPowerEntityInfos ps \<noteq> [] \<Longrightarrow>
   getPowerEntityStateResidencyData ps w [] out =
     getPowerEntityStateResidencyData ps w (iota (length (mPowerEntityInfos ps))) out \<and>
   (length (mPowerEntityInfos ps) \<le> 2 ^ 31 \<longrightarrow>
      map sint (iota (length (mPowerEntityInfos ps))) =
        map int [0..<length (mPowerEntityInfos ps)] \<and>
      (\<forall>e \<in> set (iota (length (mPowerEntityInfos ps))). \<not> invalidId ps e))"
  using sint_iota [of "length (mPowerEntityInfos ps)"] iota_valid [of ps]
  by (subst getPowerEntityStateResidencyData.simps) simp

theorem empty_request_expands_to_all_ids_witness:
  "mPowerEntityInfos exPowerStats \<noteq> [] \<and>
   getPowerEntityStateResidencyData exPowerStats 0 [] [] =
     getPowerEntityStateResidencyData exPowerStats 0 [0, 1, 2] [] \<and>
   length (mPowerEntityInfos exPowerStats) \<le> 2 ^ 31 \<and>
   map sint [0, 1, 2 :: int32_t] = [0, 1, 2]"
proof -
  have ne: "mPowerEntityInfos exPowerStats \<noteq> []"
    by (simp add: exPowerStats_eq)
  have len: "length (mPowerEntityInfos exPowerStats) = 3"
    by (simp add: exPowerStats_eq)
  have up: "map int [0..<3] = [0, 1, 2]"
    by (simp add: numeral_3_eq_3)
  from empty_request_expands_to_all_ids [OF ne, of 0 "[]"] ne show ?thesis
    unfolding len iota_3 up by simp
qed

text \<open>
  Claim C10. With no entity registered, a request with an empty id list returns
  \<^verbatim>\<open>STATUS_OK\<close>, leaves the result vector as the caller passed it (empty for an empty
  one) and calls no provider: there are no events and the world is unchanged.
\<close>

theorem empty_request_on_empty_registry:
  "mPowerEntityInfos ps = [] \<Longrightarrow>
   getPowerEntityStateResidencyData ps w [] [] = Inr (w, STATUS_OK, [], []) \<and>
   getPowerEntityStateResidencyData ps w [] out = Inr (w, STATUS_OK, out, [])"
  by (simp add: getPowerEntityStateResidencyData.simps initState_def)

theorem empty_request_on_empty_registry_witness:
  "mPowerEntityInfos (PowerStats_new :: nat PowerStats) = [] \<and>
   getPowerEntityStateResidencyData (PowerStats_new :: nat PowerStats) 0 [] [] =
     Inr (0, STATUS_OK, [], [])"
proof -
  have e: "mPowerEntityInfos (PowerStats_new :: nat PowerStats) = []"
    by (simp add: PowerStats_new_def)
  from empty_request_on_empty_registry [OF e, of 0 "[]"] e show ?thesis
    by simp
qed

text \<open>
  Claim C5. While no rail energy provider is set, \<^verbatim>\<open>getEnergyData\<close> and
  \<^verbatim>\<open>getRailInfo\<close> return \<^verbatim>\<open>STATUS_OK\<close> and leave the result vector untouched, so an
  empty vector stays empty; the world is not touched either.
\<close>

theorem no_rail_provider_is_not_an_error:
  "mRailEnergyDataProvider ps = None \<Longrightarrow>
   getEnergyData ps w in_railIndices [] = (w, STATUS_OK, []) \<and>
   getRailInfo ps w [] = (w, STATUS_OK, []) \<and>
   getEnergyData ps w in_railIndices out = (w, STATUS_OK, out) \<and>
   getRailInfo ps w out' = (w, STATUS_OK, out')"
  by (simp add: getEnergyData_def getRailInfo_def)

theorem no_rail_provider_is_not_an_error_witness:
  "mRailEnergyDataProvider exPowerStats = None \<and>
   getEnergyData exPowerStats 0 [3, 4] [] = (0, STATUS_OK, []) \<and>
   getRailInfo exPowerStats 0 [] = (0, STATUS_OK, [])"
proof -
  have n: "mRailEnergyDataProvider exPowerStats = None"
    by (simp add: exPowerStats_eq)
  from no_rail_provider_is_not_an_error [OF n, of 0 "[3, 4]" "[]" "[]"] n show ?thesis
    by simp
qed

text \<open>
  Claim C9. The provider table and the entity table have the same length on a new
  service object and after every registration. Where they have, the provider lookup of
  a valid id is in bounds, fetching for it cannot fail, and the whole request returns
  a result rather than a fault.
\<close>

theorem provider_lookup_in_bounds:
  "registryInv (registerAll rs PowerStats_new) \<and>
   (registryInv ps \<longrightarrow>
      registryInv (register r ps) \<and>
      (\<not> invalidId ps eid \<longrightarrow>
         nat (sint eid) < length (mStateResidencyDataProviders ps) \<and>
         (\<exists>s'. fetchResults ps eid name s = Inr s')) \<and>
      (\<exists>res. getPowerEntityStateResidencyData ps w ids out = Inr res))"
  using registerAll_inv [OF registryInv_new, of rs] register_inv [of ps r]
    registryInv_in_bounds [of ps eid] fetchResults_total [of ps eid name s]
    get_total [of ps w ids out]
  by blast

theorem provider_lookup_in_bounds_witness:
  "registryInv exPowerStats \<and> \<not> invalidId exPowerStats 2 \<and>
   nat (sint (2 :: int32_t)) < length (mStateResidencyDataProviders exPowerStats) \<and>
   (\<exists>res. getPowerEntityStateResidencyData exPowerStats 0 [2, 7] [] = Inr res)"
proof -
  have i: "registryInv exPowerStats"
    by (simp add: registryInv_def exPowerStats_eq)
  have v: "\<not> invalidId exPowerStats 2"
    by (simp add: invalidId_def exPowerStats_eq)
  from provider_lookup_in_bounds [of "[]" exPowerStats "SetRailDataProvider undefined" 2 "[]"
      "initState 0 []" 0 "[2, 7]" "[]"] i v
  show ?thesis by blast
qed

text \<open>
  Claim C6. After any sequence of registrations on a new service object, the ids stored
  in the entity table are \<open>0, 1, \<dots>, N - 1\<close> in registration order, where \<open>N\<close> is the
  number of entities registered: the id at position \<open>i\<close> is the \<^verbatim>\<open>int32_t\<close> value of
  \<open>i\<close>. Up to \<open>2\<^sup>3\<^sup>1\<close> entities (the range of \<^verbatim>\<open>int32_t\<close>; beyond it the counter
  \<^verbatim>\<open>id++\<close> overflows) the ids read as signed numbers are \<open>0 \<dots> N - 1\<close> and pairwise
  distinct. A registration only appends: the entries that were in the entity table and
  in the provider table before are still there, unchanged, as a prefix.
\<close>

theorem registered_ids_sequential:
  fixes rs :: "'w registration list" and r :: "'w registration" and ps0 :: "'w PowerStats"
  defines "ps \<equiv> registerAll rs PowerStats_new"
  defines "N \<equiv> length (mPowerEntityInfos ps)"
  shows "N = sum_list (map numEntities rs) \<and>
         map powerEntityId (mPowerEntityInfos ps) = iota N \<and>
         (N \<le> 2 ^ 31 \<longrightarrow>
            map sint (map powerEntityId (mPowerEntityInfos ps)) = map int [0..<N] \<and>
            distinct (map powerEntityId (mPowerEntityInfos ps))) \<and>
         take (length (mPowerEntityInfos ps0)) (mPowerEntityInfos (register r ps0)) =
           mPowerEntityInfos ps0 \<and>
         length (mPowerEntityInfos (register r ps0)) =
           length (mPowerEntityInfos ps0) + numEntities r \<and>
         take (length (mStateResidencyDataProviders ps0))
           (mStateResidencyDataProviders (register r ps0)) =
           mStateResidencyDataProviders ps0"
proof -
  have new: "map powerEntityId (mPowerEntityInfos (PowerStats_new :: 'w PowerStats)) =
      iota (length (mPowerEntityInfos (PowerStats_new :: 'w PowerStats)))"
    by (simp add: PowerStats_new_def iota_def)
  have ids: "map powerEntityId (mPowerEntityInfos ps) = iota N"
    unfolding ps_def N_def by (rule registerAll_ids [OF new])
  have len: "N = sum_list (map numEntities rs)"
    unfolding ps_def N_def by (simp add: registerAll_length PowerStats_new_def)
  have small: "N \<le> 2 ^ 31 \<longrightarrow>
            map sint (map powerEntityId (mPowerEntityInfos ps)) = map int [0..<N] \<and>
            distinct (map powerEntityId (mPowerEntityInfos ps))"
  proof
    assume N: "N \<le> 2 ^ 31"
    then have "N \<le> 2 ^ 32" by simp
    with N show "map sint (map powerEntityId (mPowerEntityInfos ps)) = map int [0..<N] \<and>
            distinct (map powerEntityId (mPowerEntityInfos ps))"
      by (simp only: ids sint_iota distinct_iota)
  qed
  from ids len small show ?thesis
    by (simp only: register_take register_length register_providers_take simp_thms)
qed

theorem registered_ids_sequential_witness:
  "length (mPowerEntityInfos exPowerStats) = 3 \<and>
   length (mPowerEntityInfos exPowerStats) \<le> 2 ^ 31 \<and>
   map powerEntityId (mPowerEntityInfos exPowerStats) = [0, 1, 2] \<and>
   map sint (map powerEntityId (mPowerEntityInfos exPowerStats)) = [0, 1, 2] \<and>
   distinct (map powerEntityId (mPowerEntityInfos exPowerStats))"
proof -
  have len: "length (mPowerEntityInfos exPowerStats) = 3"
    by (simp add: exPowerStats_eq)
  have up: "map int [0..<3] = [0, 1, 2]"
    by (simp add: numeral_3_eq_3)
  from registered_ids_sequential
         [of "[AddStateResidencyDataProvider exSoc, AddStateResidencyDataProvider exModem]"]
  show ?thesis
    unfolding exPowerStats_def [symmetric] len iota_3 up by simp
qed

text \<open>
  Claim C2. When the id list contains an id out of range, the status is
  \<^verbatim>\<open>STATUS_BAD_VALUE\<close>, every id of the list is still processed in order, and the
  results appended contain an entry for every valid id of the list whose provider
  supplies data for its entity (and, more generally, for every valid id whose retrieval
  did not fail in this call).
\<close>

theorem invalid_id_does_not_stop_processing:
  assumes inv: "registryInv ps" and bad: "\<exists>e \<in> set ids. invalidId ps e"
  shows "\<exists>w' new evs.
           getPowerEntityStateResidencyData ps w ids out =
             Inr (w', STATUS_BAD_VALUE, out @ new, evs) \<and>
           processed evs = ids \<and>
           (\<forall>e \<in> set ids. \<not> invalidId ps e \<and> suppliesData ps e \<longrightarrow>
              (\<exists>r \<in> set new. res_powerEntityId r = e)) \<and>
           (\<forall>e \<in> set ids. \<not> invalidId ps e \<and> (\<forall>n. FailedToRetrieve e n \<notin> set evs) \<longrightarrow>
              (\<exists>r \<in> set new. res_powerEntityId r = e))"
proof -
  from bad have ne: "ids \<noteq> []" by auto
  let ?s = "initState w out"
  from residencyLoop_total [OF inv] obtain s' where
    run: "residencyLoop ps ids ?s = Inr s'"
    by blast
  from get_run [OF inv, of w ids out] obtain s'' where
    get: "getPowerEntityStateResidencyData ps w ids out =
            Inr (world s'', err s'', aidl_return s'', events s'')"
    and st: "err s'' = statusOf (events s'')"
    and ok: "\<forall>ev \<in> set (events s''). eventOk ps ev"
    and pr: "processed (events s'') = effectiveIds ps ids"
    and res: "resultsInv out s''"
    by blast
  from get run ne have s'': "world s'' = world s'" "err s'' = err s'"
    "aidl_return s'' = aidl_return s'" "events s'' = events s'"
    by (simp_all add: get_eq)
  from pr ne s'' have pr': "processed (events s') = ids" by simp
  from res s'' obtain new where new: "aidl_return s' = out @ new"
    and ids_new: "map res_powerEntityId new = appended (events s')"
    by (auto simp: resultsInv_def)
  from ok s'' have ok': "\<forall>ev \<in> set (events s'). eventOk ps ev" by simp
  from skipped_iff_invalid [OF ok'] bad pr' have "\<exists>ev \<in> set (events s'). isSkipped ev"
    by simp
  with st s'' have bv: "err s' = STATUS_BAD_VALUE"
    by (simp add: statusOf_def)
  have entry: "\<exists>r \<in> set new. res_powerEntityId r = e"
    if e: "e \<in> set ids" "\<not> invalidId ps e" "\<forall>n. FailedToRetrieve e n \<notin> set (events s')" for e
  proof -
    from answered_or_failed [OF ok', of e] e pr' have "e \<in> set (appended (events s'))"
      by auto
    with ids_new have "e \<in> set (map res_powerEntityId new)" by simp
    then show ?thesis by auto
  qed
  have nofail: "\<forall>n. FailedToRetrieve e n \<notin> set (events s')" if sup: "suppliesData ps e" for e
  proof (rule residencyLoop_invariant
      [where P = "\<lambda>s. \<forall>n. FailedToRetrieve e n \<notin> set (events s)", OF _ _ run])
    show "\<forall>n. FailedToRetrieve e n \<notin> set (events ?s)"
      by (simp add: initState_def)
  qed (rule loopBody_supplies [OF sup])
  from get s'' new bv have
    "getPowerEntityStateResidencyData ps w ids out =
       Inr (world s', STATUS_BAD_VALUE, out @ new, events s')"
    by simp
  with pr' entry nofail show ?thesis by blast
qed

lemmas run_defs = getPowerEntityStateResidencyData.simps loopBody_def invalidId_def
  fetchResults_def appendResults_def Let_def initState_def

lemma exPowerStats_inv: "registryInv exPowerStats"
  by (simp add: registryInv_def exPowerStats_eq)

lemma exSoc_onlyAdds: "onlyAdds exSoc"
  by (simp add: onlyAdds_def exSoc_def)

lemma exModem_onlyAdds: "onlyAdds exModem"
  by (simp add: onlyAdds_def exModem_def)

lemma exPowerStats_supplies_0: "suppliesData exPowerStats 0"
  by (simp add: suppliesData_def exPowerStats_eq exSoc_def entityNameOf_def)

theorem invalid_id_does_not_stop_processing_witness:
  "registryInv exPowerStats \<and> (\<exists>e \<in> set [5, 0]. invalidId exPowerStats e) \<and>
   \<not> invalidId exPowerStats 0 \<and> suppliesData exPowerStats 0 \<and>
   (\<exists>w' new evs.
      getPowerEntityStateResidencyData exPowerStats 0 [5, 0] [] =
        Inr (w', STATUS_BAD_VALUE, new, evs) \<and>
      (\<exists>r \<in> set new. res_powerEntityId r = 0))"
proof -
  have bad: "\<exists>e \<in> set [5, 0]. invalidId exPowerStats e"
    by (simp add: invalidId_def exPowerStats_eq)
  have v: "\<not> invalidId exPowerStats 0"
    by (simp add: invalidId_def exPowerStats_eq)
  from invalid_id_does_not_stop_processing [OF exPowerStats_inv bad, of 0 "[]"]
  obtain w' new evs where
    get: "getPowerEntityStateResidencyData exPowerStats 0 [5, 0] [] =
            Inr (w', STATUS_BAD_VALUE, new, evs)"
    and all: "\<forall>e \<in> set [5, 0]. \<not> invalidId exPowerStats e \<and> suppliesData exPowerStats e \<longrightarrow>
              (\<exists>r \<in> set new. res_powerEntityId r = e)"
    by auto
  from all v exPowerStats_supplies_0 have "\<exists>r \<in> set new. res_powerEntityId r = 0"
    by simp
  with get bad v exPowerStats_inv exPowerStats_supplies_0 show ?thesis by blast
qed

lemma loopBody_keeps_bad_value:
  assumes "loopBody ps eid s = Inr s'" "err s = STATUS_BAD_VALUE"
  shows "err s' = STATUS_BAD_VALUE"
  using loopBody_cases [OF assms(1)]
proof (elim disjE conjE exE)
  assume "s' = s\<lparr>err := STATUS_BAD_VALUE, events := events s @ [SkippedInvalid eid]\<rparr>"
  then show ?thesis by simp
next
  fix s1
  assume f: "fetchResults ps eid (entityNameOf ps eid) s = Inr s1"
    and a: "s' = appendResults eid (entityNameOf ps eid) s1"
  from fetchResults_cases [OF f] assms(2) have "err s1 = STATUS_BAD_VALUE" by auto
  with appendResults_cases [of s1 "entityNameOf ps eid" eid] a show ?thesis by auto
qed

lemma loopBody_invalid_sets_bad_value:
  assumes "loopBody ps eid s = Inr s'" "invalidId ps eid"
  shows "err s' = STATUS_BAD_VALUE"
  using loopBody_cases [OF assms(1)] assms(2) by auto

text \<open>
  Claim C3. The single status returned follows the priority of the two errors. If an
  id out of range occurs among the ids processed, the status is
  \<^verbatim>\<open>STATUS_BAD_VALUE\<close>, whether or not a retrieval failed and in whichever order. If
  all ids are valid and some retrieval failed, it is
  \<^verbatim>\<open>STATUS_FAILED_TRANSACTION\<close>; if all are valid and none failed, it is
  \<^verbatim>\<open>STATUS_OK\<close>. A retrieval failed exactly when fewer results were appended than
  valid ids were requested. Within the loop, an iteration never changes the error away
  from \<^verbatim>\<open>STATUS_BAD_VALUE\<close>, and an iteration on an invalid id sets it whatever it
  was before.
\<close>

theorem status_priority:
  assumes inv: "registryInv ps"
  shows "\<exists>w' st new evs.
           getPowerEntityStateResidencyData ps w ids out = Inr (w', st, out @ new, evs) \<and>
           ((\<exists>e \<in> set ids. invalidId ps e) \<longrightarrow> st = STATUS_BAD_VALUE) \<and>
           ((\<exists>e \<in> set (effectiveIds ps ids). invalidId ps e) \<longrightarrow> st = STATUS_BAD_VALUE) \<and>
           ((\<forall>e \<in> set (effectiveIds ps ids). \<not> invalidId ps e) \<and>
            (\<exists>ev \<in> set evs. isFailure ev) \<longrightarrow> st = STATUS_FAILED_TRANSACTION) \<and>
           ((\<forall>e \<in> set (effectiveIds ps ids). \<not> invalidId ps e) \<and>
            (\<forall>ev \<in> set evs. \<not> isFailure ev) \<longrightarrow> st = STATUS_OK) \<and>
           length (filter (\<lambda>e. \<not> invalidId ps e) (effectiveIds ps ids)) =
             length new + length (filter isFailure evs) \<and>
           (\<forall>eid s s'. loopBody ps eid s = Inr s' \<and> err s = STATUS_BAD_VALUE \<longrightarrow>
              err s' = STATUS_BAD_VALUE) \<and>
           (\<forall>eid s s'. loopBody ps eid s = Inr s' \<and> invalidId ps eid \<longrightarrow>
              err s' = STATUS_BAD_VALUE)"
proof -
  from get_run [OF inv, of w ids out] obtain s' where
    get: "getPowerEntityStateResidencyData ps w ids out =
            Inr (world s', err s', aidl_return s', events s')"
    and st: "err s' = statusOf (events s')"
    and ok: "\<forall>ev \<in> set (events s'). eventOk ps ev"
    and pr: "processed (events s') = effectiveIds ps ids"
    and res: "resultsInv out s'"
    by blast
  from res obtain new where new: "aidl_return s' = out @ new"
    and ids_new: "map res_powerEntityId new = appended (events s')"
    by (auto simp: resultsInv_def)
  from ids_new have len: "length new = length (appended (events s'))"
    by (metis length_map)
  from skipped_iff_invalid [OF ok] pr
  have sk: "(\<exists>ev \<in> set (events s'). isSkipped ev) \<longleftrightarrow>
            (\<exists>e \<in> set (effectiveIds ps ids). invalidId ps e)"
    by simp
  have 1: "(\<exists>e \<in> set (effectiveIds ps ids). invalidId ps e) \<longrightarrow> err s' = STATUS_BAD_VALUE"
    using sk st by (simp add: statusOf_def)
  have 0: "(\<exists>e \<in> set ids. invalidId ps e) \<longrightarrow> err s' = STATUS_BAD_VALUE"
  proof
    assume bad: "\<exists>e \<in> set ids. invalidId ps e"
    then have "ids \<noteq> []" by auto
    with bad 1 show "err s' = STATUS_BAD_VALUE" by simp
  qed
  have 2: "(\<forall>e \<in> set (effectiveIds ps ids). \<not> invalidId ps e) \<and>
            (\<exists>ev \<in> set (events s'). isFailure ev) \<longrightarrow> err s' = STATUS_FAILED_TRANSACTION"
    using sk st by (auto simp add: statusOf_def)
  have 3: "(\<forall>e \<in> set (effectiveIds ps ids). \<not> invalidId ps e) \<and>
            (\<forall>ev \<in> set (events s'). \<not> isFailure ev) \<longrightarrow> err s' = STATUS_OK"
    using sk st by (auto simp add: statusOf_def)
  have 4: "length (filter (\<lambda>e. \<not> invalidId ps e) (effectiveIds ps ids)) =
             length new + length (filter isFailure (events s'))"
    using valid_processed_count [OF ok] pr len by simp
  from get new have "getPowerEntityStateResidencyData ps w ids out =
            Inr (world s', err s', out @ new, events s')"
    by simp
  with 0 1 2 3 4 loopBody_keeps_bad_value [of ps] loopBody_invalid_sets_bad_value [of ps]
  show ?thesis by blast
qed

lemma ex_run_2: "getPowerEntityStateResidencyData exPowerStats 0 [2] [] =
     Inr (1, STATUS_FAILED_TRANSACTION, [],
          [CalledGetResults 2 ''MODEM'', FailedToRetrieve 2 ''MODEM''])"
  by (simp add: run_defs exPowerStats_eq exModem_def)

theorem status_priority_witness:
  "registryInv exPowerStats \<and>
   (\<exists>e \<in> set [2, 5]. invalidId exPowerStats e) \<and>
   (\<exists>w' new evs. getPowerEntityStateResidencyData exPowerStats 0 [2, 5] [] =
       Inr (w', STATUS_BAD_VALUE, new, evs)) \<and>
   (\<exists>e \<in> set [5, 2]. invalidId exPowerStats e) \<and>
   (\<exists>w' new evs. getPowerEntityStateResidencyData exPowerStats 0 [5, 2] [] =
       Inr (w', STATUS_BAD_VALUE, new, evs)) \<and>
   \<not> invalidId exPowerStats 2 \<and>
   (\<exists>w' new evs. getPowerEntityStateResidencyData exPowerStats 0 [2] [] =
       Inr (w', STATUS_FAILED_TRANSACTION, new, evs) \<and> (\<exists>ev \<in> set evs. isFailure ev))"
proof -
  have bad1: "\<exists>e \<in> set [2, 5]. invalidId exPowerStats e"
    by (simp add: invalidId_def exPowerStats_eq)
  have bad2: "\<exists>e \<in> set [5, 2]. invalidId exPowerStats e"
    by (simp add: invalidId_def exPowerStats_eq)
  have v: "\<not> invalidId exPowerStats 2"
    by (simp add: invalidId_def exPowerStats_eq)
  from status_priority [OF exPowerStats_inv, of 0 "[2, 5]" "[]"] bad1
  have r1: "\<exists>w' new evs. getPowerEntityStateResidencyData exPowerStats 0 [2, 5] [] =
       Inr (w', STATUS_BAD_VALUE, new, evs)"
    by auto
  from status_priority [OF exPowerStats_inv, of 0 "[5, 2]" "[]"] bad2
  have r2: "\<exists>w' new evs. getPowerEntityStateResidencyData exPowerStats 0 [5, 2] [] =
       Inr (w', STATUS_BAD_VALUE, new, evs)"
    by auto
  from status_priority [OF exPowerStats_inv, of 0 "[2]" "[]"] v
  have r3: "\<exists>w' new evs. getPowerEntityStateResidencyData exPowerStats 0 [2] [] =
       Inr (w', STATUS_FAILED_TRANSACTION, new, evs) \<and> (\<exists>ev \<in> set evs. isFailure ev)"
    by (auto simp: ex_run_2)
  from exPowerStats_inv bad1 r1 bad2 r2 v r3 show ?thesis by blast
qed

text \<open>
  Claim C4 says that \<^verbatim>\<open>getResults\<close> is called at most once for every entity name
  during one request. It is not so when a retrieval fails: the map still has no entry
  for the name, and the next occurrence of the id calls the provider again.
\<close>

theorem getResults_calls_counterexample:
  "getPowerEntityStateResidencyData exPowerStats 0 [2, 2] [] =
     Inr (2, STATUS_FAILED_TRANSACTION, [],
          [CalledGetResults 2 ''MODEM'', FailedToRetrieve 2 ''MODEM'',
           CalledGetResults 2 ''MODEM'', FailedToRetrieve 2 ''MODEM'']) \<and>
   length (filter (isCallFor ''MODEM'')
          [CalledGetResults 2 ''MODEM'', FailedToRetrieve 2 ''MODEM'',
           CalledGetResults 2 ''MODEM'', FailedToRetrieve 2 ''MODEM'']) = 2"
  by (simp add: run_defs exPowerStats_eq exModem_def)

text \<open>
  Claim C4, amended. Provided no provider removes entries from the map it is given,
  during one request \<^verbatim>\<open>getResults\<close> is called for an entity name at most once more
  than retrievals for that name failed; so at most once for a name whose retrieval
  never fails. Every call is made for a valid id, under the name of its entity.
\<close>

theorem getResults_calls_bounded:
  assumes inv: "registryInv ps"
    and adds: "\<forall>p \<in> set (mStateResidencyDataProviders ps). onlyAdds p"
  shows "\<exists>w' st out' evs.
           getPowerEntityStateResidencyData ps w ids out = Inr (w', st, out', evs) \<and>
           (\<forall>ev \<in> set evs. eventOk ps ev) \<and>
           (\<forall>n. length (filter (isCallFor n) evs) \<le>
                  1 + length (filter (isFailureFor n) evs)) \<and>
           (\<forall>n. (\<forall>ev \<in> set evs. \<not> isFailureFor n ev) \<longrightarrow>
                  length (filter (isCallFor n) evs) \<le> 1)"
proof -
  let ?s = "initState w out"
  from residencyLoop_total [OF inv] obtain s' where
    run: "residencyLoop ps (effectiveIds ps ids) ?s = Inr s'"
    by blast
  have get: "getPowerEntityStateResidencyData ps w ids out =
       Inr (world s', err s', aidl_return s', events s')"
    by (simp add: get_eq run)
  have ok: "\<forall>ev \<in> set (events s'). eventOk ps ev"
  proof (rule residencyLoop_invariant
          [where P = "\<lambda>s. \<forall>ev \<in> set (events s). eventOk ps ev", OF _ _ run])
    show "\<forall>ev \<in> set (events ?s). eventOk ps ev"
      by (simp add: initState_def)
  qed (rule loopBody_eventOk)
  have calls: "callsInv n s'" for n
  proof (rule residencyLoop_invariant [where P = "callsInv n", OF _ _ run])
    show "callsInv n ?s"
      by (simp add: initState_def callsInv_def)
  qed (rule loopBody_calls [OF adds])
  have bound: "length (filter (isCallFor n) (events s')) \<le>
                  1 + length (filter (isFailureFor n) (events s'))" for n
    using calls [of n] by (simp add: callsInv_def split: if_splits)
  have once: "length (filter (isCallFor n) (events s')) \<le> 1"
    if "\<forall>ev \<in> set (events s'). \<not> isFailureFor n ev" for n
  proof -
    from that have "filter (isFailureFor n) (events s') = []"
      by (simp add: filter_empty_conv)
    with bound [of n] show ?thesis by simp
  qed
  from get ok bound once show ?thesis by blast
qed

theorem getResults_calls_bounded_witness:
  "registryInv exPowerStats \<and>
   mStateResidencyDataProviders exPowerStats = [exSoc, exSoc, exModem] \<and>
   onlyAdds exSoc \<and> onlyAdds exModem \<and>
   getPowerEntityStateResidencyData exPowerStats 0 [0, 1, 0, 2, 2] [] =
     Inr (3, STATUS_FAILED_TRANSACTION,
          [\<lparr>res_powerEntityId = 0, stateResidencyData = exCpuData 0\<rparr>,
           \<lparr>res_powerEntityId = 1, stateResidencyData = []\<rparr>,
           \<lparr>res_powerEntityId = 0, stateResidencyData = exCpuData 0\<rparr>],
          [CalledGetResults 0 ''CPU'', AppendedResult 0 ''CPU'', AppendedResult 1 ''GPU'',
           AppendedResult 0 ''CPU'', CalledGetResults 2 ''MODEM'', FailedToRetrieve 2 ''MODEM'',
           CalledGetResults 2 ''MODEM'', FailedToRetrieve 2 ''MODEM'']) \<and>
   (\<exists>w' st out' evs.
      getPowerEntityStateResidencyData exPowerStats 0 [0, 1, 0, 2, 2] [] =
        Inr (w', st, out', evs) \<and>
      length (filter (isCallFor ''CPU'') evs) \<le> 1 \<and>
      length (filter (isCallFor ''MODEM'') evs) \<le> 1 + length (filter (isFailureFor ''MODEM'') evs))"
proof -
  have adds: "\<forall>p \<in> set (mStateResidencyDataProviders exPowerStats). onlyAdds p"
    by (simp add: exPowerStats_eq exSoc_onlyAdds exModem_onlyAdds)
  have run: "getPowerEntityStateResidencyData exPowerStats 0 [0, 1, 0, 2, 2] [] =
     Inr (3, STATUS_FAILED_TRANSACTION,
          [\<lparr>res_powerEntityId = 0, stateResidencyData = exCpuData 0\<rparr>,
           \<lparr>res_powerEntityId = 1, stateResidencyData = []\<rparr>,
           \<lparr>res_powerEntityId = 0, stateResidencyData = exCpuData 0\<rparr>],
          [CalledGetResults 0 ''CPU'', AppendedResult 0 ''CPU'', AppendedResult 1 ''GPU'',
           AppendedResult 0 ''CPU'', CalledGetResults 2 ''MODEM'', FailedToRetrieve 2 ''MODEM'',
           CalledGetResults 2 ''MODEM'', FailedToRetrieve 2 ''MODEM''])"
    by (simp add: run_defs exPowerStats_eq exModem_def exSoc_def)
  from getResults_calls_bounded [OF exPowerStats_inv adds, of 0 "[0, 1, 0, 2, 2]" "[]"]
  obtain w' st out' evs where
    get: "getPowerEntityStateResidencyData exPowerStats 0 [0, 1, 0, 2, 2] [] =
        Inr (w', st, out', evs)"
    and bound: "\<forall>n. length (filter (isCallFor n) evs) \<le>
                  1 + length (filter (isFailureFor n) evs)"
    and once: "\<forall>n. (\<forall>ev \<in> set evs. \<not> isFailureFor n ev) \<longrightarrow>
                  length (filter (isCallFor n) evs) \<le> 1"
    by blast
  from get run have evs: "evs = [CalledGetResults 0 ''CPU'', AppendedResult 0 ''CPU'',
           AppendedResult 1 ''GPU'', AppendedResult 0 ''CPU'', CalledGetResults 2 ''MODEM'',
           FailedToRetrieve 2 ''MODEM'', CalledGetResults 2 ''MODEM'', FailedToRetrieve 2 ''MODEM'']"
    by simp
  have "\<forall>ev \<in> set evs. \<not> isFailureFor ''CPU'' ev"
    unfolding evs by simp
  with once have cpu: "length (filter (isCallFor ''CPU'') evs) \<le> 1" by blast
  from bound have modem: "length (filter (isCallFor ''MODEM'') evs) \<le>
      1 + length (filter (isFailureFor ''MODEM'') evs)" by blast
  have provs: "mStateResidencyDataProviders exPowerStats = [exSoc, exSoc, exModem]"
    by (simp add: exPowerStats_eq)
  from exPowerStats_inv provs exSoc_onlyAdds exModem_onlyAdds run get cpu modem
  show ?thesis by blast
qed

subsection \<open>The dump\<close>

lemma isDeltaRow_simps [simp]:
  "isDeltaRow (Str s) = False" "isDeltaRow (Num n) = False"
  "isDeltaRow (StringPrintf f args) = (f = rail_dataFormatDelta \<or> f = res_dataFormatDelta)"
  by (simp_all add: isDeltaRow_def)

lemma rowDeltas_simps [simp]:
  "rowDeltas (StringPrintf rail_dataFormatDelta [a, b, c, d]) = [d]"
  "rowDeltas (StringPrintf res_dataFormatDelta [a, b, c, d, e, f, g, h]) = [d, f, h]"
  by (simp_all add: rowDeltas_def)

lemma emplace_apply:
  "emplace m k v k' = (if k' = k \<and> m k = None then Some v else m k')"
  by (auto simp: emplace_def split: option.splits)

lemma foldl_emplace_None:
  "foldl (\<lambda>m x. emplace m (key x) (val x)) m0 xs k = None \<longleftrightarrow>
     m0 k = None \<and> k \<notin> key ` set xs"
  by (induction xs arbitrary: m0) (auto simp: emplace_apply)

lemma prevEnergyDataMap_None:
  "prevEnergyDataMap prev k = None \<longleftrightarrow> k \<notin> energy_railIndex ` set prev"
  by (simp add: prevEnergyDataMap_def foldl_emplace_None)

lemma deltaEnergy_absent:
  "energy_railIndex d \<notin> energy_railIndex ` set prev \<Longrightarrow>
   deltaEnergy (prevEnergyDataMap prev) d = 0"
  using prevEnergyDataMap_None [of prev "energy_railIndex d"] by (simp add: deltaEnergy_def)

lemma railRowsDelta_rows:
  "railRowsDelta railNames prevMap ds = Inr rows \<Longrightarrow>
   list_all2 (\<lambda>d row. isDeltaRow row \<and> rowDeltas row = [MilliF (deltaEnergy prevMap d)]) ds rows"
proof (induction ds arbitrary: rows)
  case Nil
  then show ?case by simp
next
  case (Cons d ds)
  then show ?case
    by (auto split: option.splits sum.splits)
qed

lemma railRowsDelta_total:
  "\<forall>d \<in> set ds. railNames (energy_railIndex d) \<noteq> None \<Longrightarrow>
   \<exists>rows. railRowsDelta railNames prevMap ds = Inr rows"
  by (induction ds) auto

lemma railRows_total:
  "\<forall>d \<in> set ds. railNames (energy_railIndex d) \<noteq> None \<Longrightarrow>
   \<exists>rows. railRows railNames ds = Inr rows"
  by (induction ds) auto

lemma deltaRows_simps [simp]:
  "deltaRows [] = []"
  "deltaRows (item # items) = (if isDeltaRow item then item # deltaRows items else deltaRows items)"
  "deltaRows (xs @ ys) = deltaRows xs @ deltaRows ys"
  by (simp_all add: deltaRows_def)

lemma deltaRows_all: "\<forall>row \<in> set rows. isDeltaRow row \<Longrightarrow> deltaRows rows = rows"
  by (simp add: deltaRows_def)

lemma numbersOf_simps [simp]:
  "numbersOf [] = []"
  "numbersOf (Str s # items) = numbersOf items"
  "numbersOf (Num n # items) = n # numbersOf items"
  "numbersOf (StringPrintf f args # items) = numbersOf items"
  "numbersOf (xs @ ys) = numbersOf xs @ numbersOf ys"
  by (simp_all add: numbersOf_def)

lemma numbersOf_deltaRows: "\<forall>row \<in> set rows. isDeltaRow row \<Longrightarrow> numbersOf rows = []"
proof (induction rows)
  case Nil
  show ?case by simp
next
  case (Cons row rows)
  then show ?case by (cases row) simp_all
qed

lemma list_all2_rows:
  "list_all2 (\<lambda>d row. isDeltaRow row \<and> Q d row) ds rows \<Longrightarrow> \<forall>row \<in> set rows. isDeltaRow row"
  by (auto simp: list_all2_conv_all_nth in_set_conv_nth)

lemma elapsed_ms_same [simp]: "elapsed_ms t t = 0"
  by (simp add: elapsed_ms_def)

text \<open>The shape of a delta dump of the rail energy.\<close>

lemma dumpRailEnergy_delta:
  assumes "dumpRailEnergy ps w now st True = Inr (w', st', items)"
  shows "st' = st\<lparr>rail_prevEnergyData := currentEnergyData ps w, rail_prevTime := Some now\<rparr>"
    and "list_all2 (\<lambda>d row. isDeltaRow row \<and>
            rowDeltas row = [MilliF (deltaEnergy (prevEnergyDataMap (rail_prevEnergyData st)) d)])
          (currentEnergyData ps w) (deltaRows items)"
    and "numbersOf items =
           [elapsed_ms now (case rail_prevTime st of None \<Rightarrow> now | Some t \<Rightarrow> t)]"
proof -
  obtain w1 railNames where maps: "getRailEnergyMaps ps w = (w1, railNames)"
    by (cases "getRailEnergyMaps ps w")
  obtain w2 status energyData where en: "getEnergyData ps w1 [] [] = (w2, status, energyData)"
    by (cases "getEnergyData ps w1 [] []")
  have cur: "currentEnergyData ps w = energyData"
    by (simp add: currentEnergyData_def maps en)
  from assms maps en obtain rows where
    rows: "railRowsDelta railNames (prevEnergyDataMap (rail_prevEnergyData st)) energyData = Inr rows"
    and st': "st' = st\<lparr>rail_prevEnergyData := energyData, rail_prevTime := Some now\<rparr>"
    and items: "items = [Str rail_banner, Str ''Elapsed time: '',
                     Num (elapsed_ms now (case rail_prevTime st of None \<Rightarrow> now | Some t \<Rightarrow> t)),
                     Str '' ms'',
                     StringPrintf rail_headerFormatDelta
                       [S ''Subsys'', S ''Rail'', S ''Cumulative Energy'', S ''Delta   '']]
                    @ rows @ [Str rail_end_banner]"
    by (auto simp: dumpRailEnergy_def Let_def split: sum.splits)
  note all = railRowsDelta_rows [OF rows]
  from list_all2_rows [OF all] have dr: "\<forall>row \<in> set rows. isDeltaRow row" .
  from st' cur show "st' = st\<lparr>rail_prevEnergyData := currentEnergyData ps w, rail_prevTime := Some now\<rparr>"
    by simp
  have "deltaRows items = rows"
    unfolding items by (simp add: deltaRows_all [OF dr])
  with all cur show "list_all2 (\<lambda>d row. isDeltaRow row \<and>
            rowDeltas row = [MilliF (deltaEnergy (prevEnergyDataMap (rail_prevEnergyData st)) d)])
          (currentEnergyData ps w) (deltaRows items)"
    by simp
  show "numbersOf items =
           [elapsed_ms now (case rail_prevTime st of None \<Rightarrow> now | Some t \<Rightarrow> t)]"
    unfolding items by (simp add: numbersOf_deltaRows [OF dr])
qed

lemma dumpRailEnergy_plain:
  "dumpRailEnergy ps w now st False =
     map_sum id (\<lambda>(w', st', items). (w', st, items)) (dumpRailEnergy ps w now2 st2 False)"
  by (simp add: dumpRailEnergy_def split: prod.splits sum.splits)

lemma addPrevStates_None:
  "addPrevStates m srs k = None \<longleftrightarrow> m k = None \<and> k \<notin> data_powerEntityStateId ` set srs"
  by (simp add: addPrevStates_def foldl_emplace_None)

lemma flattenResults_simps [simp]:
  "flattenResults [] = []"
  "flattenResults (r # rs) =
     map (Pair (res_powerEntityId r)) (stateResidencyData r) @ flattenResults rs"
  "flattenResults (xs @ ys) = flattenResults xs @ flattenResults ys"
  by (simp_all add: flattenResults_def)

lemma residencyKeys_append:
  "residencyKeys (xs @ ys) = residencyKeys xs \<union> residencyKeys ys"
  by (simp add: residencyKeys_def)

lemma residencyKeys_single:
  "residencyKeys [r] = Pair (res_powerEntityId r) ` data_powerEntityStateId ` set (stateResidencyData r)"
  by (auto simp: residencyKeys_def)

lemma prevResultsMap_snoc:
  "prevResultsMap (prev @ [r]) =
     (prevResultsMap prev)(res_powerEntityId r \<mapsto>
         addPrevStates (case prevResultsMap prev (res_powerEntityId r) of
                          None \<Rightarrow> Map.empty | Some old \<Rightarrow> old)
           (stateResidencyData r))"
  by (simp add: prevResultsMap_def Let_def)

lemma prevResultsMap_keys:
  "prevResultsMap prev eid = Some m \<Longrightarrow> m sid \<noteq> None \<Longrightarrow> (eid, sid) \<in> residencyKeys prev"
proof (induction prev arbitrary: m rule: rev_induct)
  case Nil
  then show ?case by (simp add: prevResultsMap_def)
next
  case (snoc r prev)
  show ?case
  proof (cases "eid = res_powerEntityId r")
    case False
    with snoc.prems have "prevResultsMap prev eid = Some m"
      by (simp add: prevResultsMap_snoc)
    from snoc.IH [OF this snoc.prems(2)] show ?thesis
      by (simp add: residencyKeys_append)
  next
    case True
    let ?old = "case prevResultsMap prev (res_powerEntityId r) of
                  None \<Rightarrow> Map.empty | Some old \<Rightarrow> old"
    from True snoc.prems(1) have m: "m = addPrevStates ?old (stateResidencyData r)"
      by (simp add: prevResultsMap_snoc)
    with snoc.prems(2) addPrevStates_None [of ?old "stateResidencyData r" sid]
    have "?old sid \<noteq> None \<or> sid \<in> data_powerEntityStateId ` set (stateResidencyData r)"
      by auto
    then show ?thesis
    proof
      assume old: "?old sid \<noteq> None"
      then obtain m0 where m0: "prevResultsMap prev eid = Some m0" "m0 sid \<noteq> None"
        using True by (auto split: option.splits)
      from snoc.IH [OF m0] show ?thesis
        by (simp add: residencyKeys_append)
    next
      assume "sid \<in> data_powerEntityStateId ` set (stateResidencyData r)"
      with True show ?thesis
        by (simp add: residencyKeys_append residencyKeys_single)
    qed
  qed
qed

lemma stateDeltas_absent:
  assumes "(eid, data_powerEntityStateId sr) \<notin> residencyKeys prev"
  shows "stateDeltas (prevResultsMap prev eid) sr = (0, 0, 0)"
proof (cases "prevResultsMap prev eid")
  case None
  then show ?thesis by (simp add: stateDeltas_def)
next
  case (Some m)
  from prevResultsMap_keys [OF Some, of "data_powerEntityStateId sr"] assms
  have "m (data_powerEntityStateId sr) = None" by blast
  with Some show ?thesis by (simp add: stateDeltas_def)
qed

lemma stateRowsDelta_rows:
  "stateRowsDelta entityName stateNames prevEntityResult eid srs = Inr rows \<Longrightarrow>
   list_all2 (\<lambda>sr row. isDeltaRow row \<and>
        rowDeltas row = (case stateDeltas prevEntityResult sr of
                           (a, b, c) \<Rightarrow> [D64 a, D64 b, D64 c])) srs rows"
proof (induction srs arbitrary: rows)
  case Nil
  then show ?case by simp
next
  case (Cons sr srs)
  then show ?case
    by (auto split: option.splits sum.splits prod.splits)
qed

lemma residencyRowsDelta_rows:
  "residencyRowsDelta entityNames stateNames prevMap results = Inr rows \<Longrightarrow>
   list_all2 (\<lambda>(eid, sr) row. isDeltaRow row \<and>
        rowDeltas row = (case stateDeltas (prevMap eid) sr of
                           (a, b, c) \<Rightarrow> [D64 a, D64 b, D64 c])) (flattenResults results) rows"
proof (induction results arbitrary: rows)
  case Nil
  then show ?case by simp
next
  case (Cons r results)
  from Cons.prems obtain entityName rows1 rest where
    r1: "stateRowsDelta entityName stateNames (prevMap (res_powerEntityId r))
             (res_powerEntityId r) (stateResidencyData r) = Inr rows1"
    and r2: "residencyRowsDelta entityNames stateNames prevMap results = Inr rest"
    and rows: "rows = rows1 @ rest"
    by (auto split: option.splits sum.splits)
  from stateRowsDelta_rows [OF r1]
  have "list_all2 (\<lambda>(eid, sr) row. isDeltaRow row \<and>
        rowDeltas row = (case stateDeltas (prevMap eid) sr of
                           (a, b, c) \<Rightarrow> [D64 a, D64 b, D64 c]))
          (map (Pair (res_powerEntityId r)) (stateResidencyData r)) rows1"
    by (simp add: list_all2_map1)
  with Cons.IH [OF r2] rows show ?case
    by (simp add: list_all2_appendI)
qed

lemma list_all2_right:
  "list_all2 P xs rows \<Longrightarrow> (\<And>x row. P x row \<Longrightarrow> Q row) \<Longrightarrow> \<forall>row \<in> set rows. Q row"
  by (induction rule: list_all2_induct) auto

lemma dumpStateResidency_delta:
  assumes "dumpStateResidency ps w now st True = Inr (w', st', items)"
  shows "st' = st\<lparr>res_prevResults := currentResults ps w, res_prevTime := Some now\<rparr>"
    and "list_all2 (\<lambda>(eid, sr) row. isDeltaRow row \<and>
            rowDeltas row =
              (case stateDeltas (prevResultsMap (res_prevResults st) eid) sr of
                 (a, b, c) \<Rightarrow> [D64 a, D64 b, D64 c]))
          (flattenResults (currentResults ps w)) (deltaRows items)"
    and "numbersOf items =
           [elapsed_ms now (case res_prevTime st of None \<Rightarrow> now | Some t \<Rightarrow> t)]"
    and "w' = worldAfterResidency ps w"
proof -
  obtain entityNames stateNames where maps: "getEntityStateMaps ps = (entityNames, stateNames)"
    by (cases "getEntityStateMaps ps")
  from assms maps obtain w1 status results evs where
    get: "getPowerEntityStateResidencyData ps w [] [] = Inr (w1, status, results, evs)"
    by (auto simp: dumpStateResidency_def split: sum.splits)
  have cur: "currentResults ps w = results"
    by (simp add: currentResults_def get)
  have wa: "worldAfterResidency ps w = w1"
    by (simp add: worldAfterResidency_def get)
  from assms maps get obtain rows where
    rows: "residencyRowsDelta entityNames stateNames (prevResultsMap (res_prevResults st))
             results = Inr rows"
    and st': "st' = st\<lparr>res_prevResults := results, res_prevTime := Some now\<rparr>"
    and w': "w' = w1"
    and items: "items = [Str res_banner, Str ''Elapsed time: '',
                     Num (elapsed_ms now (case res_prevTime st of None \<Rightarrow> now | Some t \<Rightarrow> t)),
                     Str '' ms'',
                     StringPrintf res_headerFormatDelta
                       [S ''Entity'', S ''State'', S ''Total time'', S ''Delta   '',
                        S ''Total entries'', S ''Delta   '', S ''Last entry tstamp'',
                        S ''Delta '']]
                    @ rows @ [Str res_end_banner]"
    by (auto simp: dumpStateResidency_def Let_def split: sum.splits)
  note all = residencyRowsDelta_rows [OF rows]
  have dr: "\<forall>row \<in> set rows. isDeltaRow row"
    using all by (rule list_all2_right) (auto split: prod.splits)
  from st' cur show "st' = st\<lparr>res_prevResults := currentResults ps w, res_prevTime := Some now\<rparr>"
    by simp
  have "deltaRows items = rows"
    unfolding items by (simp add: deltaRows_all [OF dr])
  with all cur show "list_all2 (\<lambda>(eid, sr) row. isDeltaRow row \<and>
            rowDeltas row =
              (case stateDeltas (prevResultsMap (res_prevResults st) eid) sr of
                 (a, b, c) \<Rightarrow> [D64 a, D64 b, D64 c]))
          (flattenResults (currentResults ps w)) (deltaRows items)"
    by simp
  show "numbersOf items =
           [elapsed_ms now (case res_prevTime st of None \<Rightarrow> now | Some t \<Rightarrow> t)]"
    unfolding items by (simp add: numbersOf_deltaRows [OF dr])
  from w' wa show "w' = worldAfterResidency ps w" by simp
qed

lemma dumpStateResidency_plain:
  "dumpStateResidency ps w now st False =
     map_sum id (\<lambda>(w', st', items). (w', st, items)) (dumpStateResidency ps w now2 st2 False)"
  by (simp add: dumpStateResidency_def split: prod.splits sum.splits)

lemma delta_args: "(length args = 1 \<and> args ! 0 = ''delta'') \<longleftrightarrow> args = [''delta'']"
  by (cases args) auto

lemma dump_delta:
  assumes "dump ps w now1 now2 st [''delta''] = Inr (w', st', items, status)"
  shows "\<exists>w1 st1 items1 items2.
           dumpStateResidency ps w now1 st True = Inr (w1, st1, items1) \<and>
           dumpRailEnergy ps w1 now2 st1 True = Inr (w', st', items2) \<and>
           items = items1 @ items2 \<and> status = STATUS_OK"
  using assms by (auto simp: dump_def split: sum.splits)

lemma dump_not_delta:
  assumes "args \<noteq> [''delta'']"
  shows "dump ps w now1 now2 st args =
           (case dumpStateResidency ps w now1 st False of
              Inl f \<Rightarrow> Inl f
            | Inr (w1, st1, text1) \<Rightarrow>
               (case dumpRailEnergy ps w1 now2 st1 False of
                  Inl f \<Rightarrow> Inl f
                | Inr (w2, st2, text2) \<Rightarrow> Inr (w2, st2, text1 @ text2, STATUS_OK)))"
proof -
  from assms delta_args [of args] have nd: "(length args = 1 \<and> args ! 0 = ''delta'') = False"
    by blast
  show ?thesis unfolding dump_def nd Let_def ..
qed

lemma dump_plain:
  assumes a: "args \<noteq> [''delta'']"
  shows "dump ps w now1 now2 st args =
           map_sum id (\<lambda>(w', st', items, status). (w', st, items, status))
             (dump ps w now3 now4 st2 args)"
proof (cases "dumpStateResidency ps w now3 st2 False")
  case (Inl f)
  with dumpStateResidency_plain [of ps w now1 st now3 st2] show ?thesis
    by (simp add: dump_not_delta [OF a])
next
  case (Inr res)
  obtain w1 st1 items1 where res: "res = (w1, st1, items1)" by (cases res)
  from Inr res dumpStateResidency_plain [of ps w now1 st now3 st2]
  have l: "dumpStateResidency ps w now1 st False = Inr (w1, st, items1)"
    by simp
  from Inr res dumpStateResidency_plain [of ps w now3 st2 now1 st]
  have st1: "st1 = st2" by (cases "dumpStateResidency ps w now1 st False") auto
  show ?thesis
  proof (cases "dumpRailEnergy ps w1 now4 st2 False")
    case (Inl f)
    with dumpRailEnergy_plain [of ps w1 now2 st now4 st2] l Inr res st1 show ?thesis
      by (simp add: dump_not_delta [OF a])
  next
    case (Inr res2)
    obtain w2 st2' items2 where res2: "res2 = (w2, st2', items2)" by (cases res2)
    from Inr res2 dumpRailEnergy_plain [of ps w1 now2 st now4 st2]
    have "dumpRailEnergy ps w1 now2 st False = Inr (w2, st, items2)"
      by simp
    with l Inr res2 \<open>dumpStateResidency ps w now3 st2 False = Inr res\<close> res st1 show ?thesis
      by (simp add: dump_not_delta [OF a])
  qed
qed

text \<open>The dump returns when every record it prints has its names.\<close>

lemma dumpRailEnergy_returns:
  assumes "\<forall>d \<in> set (currentEnergyData ps w).
             snd (getRailEnergyMaps ps w) (energy_railIndex d) \<noteq> None"
  shows "\<exists>res. dumpRailEnergy ps w now st delta = Inr res"
proof -
  obtain w1 railNames where maps: "getRailEnergyMaps ps w = (w1, railNames)"
    by (cases "getRailEnergyMaps ps w")
  obtain w2 status energyData where en: "getEnergyData ps w1 [] [] = (w2, status, energyData)"
    by (cases "getEnergyData ps w1 [] []")
  from assms maps en have known: "\<forall>d \<in> set energyData. railNames (energy_railIndex d) \<noteq> None"
    by (simp add: currentEnergyData_def)
  from railRowsDelta_total [OF known, of "prevEnergyDataMap (rail_prevEnergyData st)"]
    railRows_total [OF known] maps en
  show ?thesis
    by (cases delta) (auto simp: dumpRailEnergy_def Let_def)
qed

lemma stateRowsDelta_total:
  "\<forall>sr \<in> set srs. \<exists>names. stateNames eid = Some names \<and>
        names (data_powerEntityStateId sr) \<noteq> None \<Longrightarrow>
   \<exists>rows. stateRowsDelta entityName stateNames prevEntityResult eid srs = Inr rows"
  by (induction srs) (auto split: prod.splits)

lemma stateRows_total:
  "entityNames eid \<noteq> None \<Longrightarrow>
   \<forall>sr \<in> set srs. \<exists>names. stateNames eid = Some names \<and>
        names (data_powerEntityStateId sr) \<noteq> None \<Longrightarrow>
   \<exists>rows. stateRows entityNames stateNames eid srs = Inr rows"
  by (induction srs) auto

lemma residencyRowsDelta_total:
  "\<forall>r \<in> set results. namesKnown entityNames stateNames r \<Longrightarrow>
   \<exists>rows. residencyRowsDelta entityNames stateNames prevMap results = Inr rows"
proof (induction results)
  case Nil
  show ?case by simp
next
  case (Cons r results)
  then obtain rest where rest: "residencyRowsDelta entityNames stateNames prevMap results = Inr rest"
    by auto
  from Cons.prems obtain entityName where en: "entityNames (res_powerEntityId r) = Some entityName"
    by (auto simp: namesKnown_def)
  from Cons.prems
  have "\<forall>sr \<in> set (stateResidencyData r).
        \<exists>names. stateNames (res_powerEntityId r) = Some names \<and>
                names (data_powerEntityStateId sr) \<noteq> None"
    by (simp add: namesKnown_def)
  then have "\<exists>rows. stateRowsDelta entityName stateNames (prevMap (res_powerEntityId r))
             (res_powerEntityId r) (stateResidencyData r) = Inr rows"
    by (rule stateRowsDelta_total)
  then obtain rows where "stateRowsDelta entityName stateNames (prevMap (res_powerEntityId r))
             (res_powerEntityId r) (stateResidencyData r) = Inr rows"
    by blast
  with rest en show ?case by simp
qed

lemma residencyRows_total:
  "\<forall>r \<in> set results. namesKnown entityNames stateNames r \<Longrightarrow>
   \<exists>rows. residencyRows entityNames stateNames results = Inr rows"
proof (induction results)
  case Nil
  show ?case by simp
next
  case (Cons r results)
  then obtain rest where rest: "residencyRows entityNames stateNames results = Inr rest"
    by auto
  from Cons.prems have "entityNames (res_powerEntityId r) \<noteq> None"
    "\<forall>sr \<in> set (stateResidencyData r).
        \<exists>names. stateNames (res_powerEntityId r) = Some names \<and>
                names (data_powerEntityStateId sr) \<noteq> None"
    by (simp_all add: namesKnown_def)
  then have "\<exists>rows. stateRows entityNames stateNames (res_powerEntityId r)
             (stateResidencyData r) = Inr rows"
    by (rule stateRows_total)
  then obtain rows where "stateRows entityNames stateNames (res_powerEntityId r)
             (stateResidencyData r) = Inr rows"
    by blast
  with rest show ?case by simp
qed

lemma dumpStateResidency_returns:
  assumes inv: "registryInv ps"
    and known: "\<forall>r \<in> set (currentResults ps w).
             namesKnown (fst (getEntityStateMaps ps)) (snd (getEntityStateMaps ps)) r"
  shows "\<exists>res. dumpStateResidency ps w now st delta = Inr res"
proof -
  obtain entityNames stateNames where maps: "getEntityStateMaps ps = (entityNames, stateNames)"
    by (cases "getEntityStateMaps ps")
  from get_total [OF inv, of w "[]" "[]"] obtain w1 status results evs where
    get: "getPowerEntityStateResidencyData ps w [] [] = Inr (w1, status, results, evs)"
    by (metis prod_cases4)
  from known maps get have k: "\<forall>r \<in> set results. namesKnown entityNames stateNames r"
    by (simp add: currentResults_def)
  from residencyRowsDelta_total [OF k, of "prevResultsMap (res_prevResults st)"]
    residencyRows_total [OF k] maps get
  show ?thesis
    by (cases delta) (auto simp: dumpStateResidency_def Let_def)
qed

text \<open>
  Claim C7. In a delta dump, the row of a record whose key (the rail index; the entity
  id with the state id) is not in the stored previous snapshot carries the delta 0 (all
  three deltas, for a residency row). When no previous time is stored the elapsed time
  written is 0, and when the stored snapshot is empty every delta is 0; so the first
  delta dump of a process writes two elapsed times of 0 and only zero deltas.
\<close>

theorem absent_key_has_zero_delta:
  "(dumpRailEnergy ps w now st True = Inr (w', st', items) \<longrightarrow>
      list_all2 (\<lambda>d row. energy_railIndex d \<notin> energy_railIndex ` set (rail_prevEnergyData st) \<longrightarrow>
                   rowDeltas row = [MilliF 0])
        (currentEnergyData ps w) (deltaRows items) \<and>
      (rail_prevTime st = None \<longrightarrow> numbersOf items = [0]) \<and>
      (rail_prevEnergyData st = [] \<longrightarrow>
         (\<forall>row \<in> set (deltaRows items). rowDeltas row = [MilliF 0]))) \<and>
   (dumpStateResidency ps w now st True = Inr (w', st', items) \<longrightarrow>
      list_all2 (\<lambda>(eid, sr) row.
                   (eid, data_powerEntityStateId sr) \<notin> residencyKeys (res_prevResults st) \<longrightarrow>
                   rowDeltas row = [D64 0, D64 0, D64 0])
        (flattenResults (currentResults ps w)) (deltaRows items) \<and>
      (res_prevTime st = None \<longrightarrow> numbersOf items = [0]) \<and>
      (res_prevResults st = [] \<longrightarrow>
         (\<forall>row \<in> set (deltaRows items). rowDeltas row = [D64 0, D64 0, D64 0]))) \<and>
   (dump ps w now1 now2 statics_init [''delta''] = Inr (w', st', items, status) \<longrightarrow>
      numbersOf items = [0, 0] \<and>
      (\<forall>row \<in> set (deltaRows items).
         rowDeltas row = [MilliF 0] \<or> rowDeltas row = [D64 0, D64 0, D64 0]))"
proof -
  have rail: "list_all2 (\<lambda>d row. energy_railIndex d \<notin> energy_railIndex ` set (rail_prevEnergyData st) \<longrightarrow>
                   rowDeltas row = [MilliF 0])
        (currentEnergyData ps w) (deltaRows items) \<and>
      (rail_prevTime st = None \<longrightarrow> numbersOf items = [0]) \<and>
      (rail_prevEnergyData st = [] \<longrightarrow>
         (\<forall>row \<in> set (deltaRows items). rowDeltas row = [MilliF 0]))"
    if d: "dumpRailEnergy ps w now st True = Inr (w', st', items)"
    for ps :: "'a PowerStats" and w now st w' st' items
  proof -
    note all = dumpRailEnergy_delta(2) [OF d]
    have 1: "list_all2 (\<lambda>d row. energy_railIndex d \<notin> energy_railIndex ` set (rail_prevEnergyData st) \<longrightarrow>
                   rowDeltas row = [MilliF 0])
        (currentEnergyData ps w) (deltaRows items)"
      using all by (rule list_all2_mono) (simp add: deltaEnergy_absent)
    have 2: "rail_prevTime st = None \<longrightarrow> numbersOf items = [0]"
      using dumpRailEnergy_delta(3) [OF d] by simp
    have 3: "rail_prevEnergyData st = [] \<longrightarrow>
         (\<forall>row \<in> set (deltaRows items). rowDeltas row = [MilliF 0])"
    proof
      assume e: "rail_prevEnergyData st = []"
      show "\<forall>row \<in> set (deltaRows items). rowDeltas row = [MilliF 0]"
        using all by (rule list_all2_right) (simp add: e deltaEnergy_absent)
    qed
    from 1 2 3 show ?thesis by simp
  qed
  have res: "list_all2 (\<lambda>(eid, sr) row.
                   (eid, data_powerEntityStateId sr) \<notin> residencyKeys (res_prevResults st) \<longrightarrow>
                   rowDeltas row = [D64 0, D64 0, D64 0])
        (flattenResults (currentResults ps w)) (deltaRows items) \<and>
      (res_prevTime st = None \<longrightarrow> numbersOf items = [0]) \<and>
      (res_prevResults st = [] \<longrightarrow>
         (\<forall>row \<in> set (deltaRows items). rowDeltas row = [D64 0, D64 0, D64 0]))"
    if d: "dumpStateResidency ps w now st True = Inr (w', st', items)"
    for ps :: "'a PowerStats" and w now st w' st' items
  proof -
    note all = dumpStateResidency_delta(2) [OF d]
    have 1: "list_all2 (\<lambda>(eid, sr) row.
                   (eid, data_powerEntityStateId sr) \<notin> residencyKeys (res_prevResults st) \<longrightarrow>
                   rowDeltas row = [D64 0, D64 0, D64 0])
        (flattenResults (currentResults ps w)) (deltaRows items)"
      using all by (rule list_all2_mono) (auto simp: stateDeltas_absent)
    have 2: "res_prevTime st = None \<longrightarrow> numbersOf items = [0]"
      using dumpStateResidency_delta(3) [OF d] by simp
    have 3: "res_prevResults st = [] \<longrightarrow>
         (\<forall>row \<in> set (deltaRows items). rowDeltas row = [D64 0, D64 0, D64 0])"
    proof
      assume e: "res_prevResults st = []"
      have k: "residencyKeys (res_prevResults st) = {}"
        by (simp add: e residencyKeys_def)
      show "\<forall>row \<in> set (deltaRows items). rowDeltas row = [D64 0, D64 0, D64 0]"
        using all by (rule list_all2_right) (auto simp: k stateDeltas_absent)
    qed
    from 1 2 3 show ?thesis by simp
  qed
  have first: "numbersOf items = [0, 0] \<and>
      (\<forall>row \<in> set (deltaRows items).
         rowDeltas row = [MilliF 0] \<or> rowDeltas row = [D64 0, D64 0, D64 0])"
    if d: "dump ps w now1 now2 statics_init [''delta''] = Inr (w', st', items, status)"
  proof -
    from dump_delta [OF d] obtain w1 st1 items1 items2 where
      r: "dumpStateResidency ps w now1 statics_init True = Inr (w1, st1, items1)"
      and e: "dumpRailEnergy ps w1 now2 st1 True = Inr (w', st', items2)"
      and items: "items = items1 @ items2"
      by blast
    from dumpStateResidency_delta(1) [OF r]
    have st1: "rail_prevTime st1 = None" "rail_prevEnergyData st1 = []"
      by (simp_all add: statics_init_def)
    have init: "res_prevTime statics_init = None" "res_prevResults statics_init = []"
      by (simp_all add: statics_init_def)
    from res [OF r] init rail [OF e] st1 items show ?thesis
      by auto
  qed
  from rail res first show ?thesis by blast
qed

text \<open>
  Claim C8. A delta dump that returns has replaced the stored snapshot and time of the
  report it made by the snapshot it fetched and the time it read, whatever they were
  before, and has left those of the other report alone; the whole \<^verbatim>\<open>dump\<close> in
  delta mode replaces both. A dump that is not in delta mode returns the statics as
  they were, and its text and its effect on the world do not depend on them nor on the
  clock.
\<close>

theorem snapshot_replaced_in_delta_mode_only:
  "(dumpRailEnergy ps w now st True = Inr (w', st', items) \<longrightarrow>
      st' = st\<lparr>rail_prevEnergyData := currentEnergyData ps w, rail_prevTime := Some now\<rparr>) \<and>
   (dumpStateResidency ps w now st True = Inr (w', st', items) \<longrightarrow>
      st' = st\<lparr>res_prevResults := currentResults ps w, res_prevTime := Some now\<rparr>) \<and>
   (dump ps w now1 now2 st [''delta''] = Inr (w', st', items, status) \<longrightarrow>
      st' = \<lparr>rail_prevEnergyData = currentEnergyData ps (worldAfterResidency ps w),
             rail_prevTime = Some now2,
             res_prevResults = currentResults ps w,
             res_prevTime = Some now1\<rparr>) \<and>
   (dumpRailEnergy ps w now st False = Inr (w', st', items) \<longrightarrow>
      st' = st \<and> dumpRailEnergy ps w now' st2 False = Inr (w', st2, items)) \<and>
   (dumpStateResidency ps w now st False = Inr (w', st', items) \<longrightarrow>
      st' = st \<and> dumpStateResidency ps w now' st2 False = Inr (w', st2, items)) \<and>
   (args \<noteq> [''delta''] \<and> dump ps w now1 now2 st args = Inr (w', st', items, status) \<longrightarrow>
      st' = st \<and> dump ps w now3 now4 st2 args = Inr (w', st2, items, status))"
proof -
  have d3: "st' = \<lparr>rail_prevEnergyData = currentEnergyData ps (worldAfterResidency ps w),
             rail_prevTime = Some now2,
             res_prevResults = currentResults ps w,
             res_prevTime = Some now1\<rparr>"
    if d: "dump ps w now1 now2 st [''delta''] = Inr (w', st', items, status)"
  proof -
    from dump_delta [OF d] obtain w1 st1 items1 items2 where
      r: "dumpStateResidency ps w now1 st True = Inr (w1, st1, items1)"
      and e: "dumpRailEnergy ps w1 now2 st1 True = Inr (w', st', items2)"
      by blast
    from dumpStateResidency_delta(1) [OF r] dumpStateResidency_delta(4) [OF r]
      dumpRailEnergy_delta(1) [OF e]
    show ?thesis by simp
  qed
  have p1: "st' = st \<and> dumpRailEnergy ps w now' st2 False = Inr (w', st2, items)"
    if d: "dumpRailEnergy ps w now st False = Inr (w', st', items)"
  proof (cases "dumpRailEnergy ps w now' st2 False")
    case (Inl f)
    with dumpRailEnergy_plain [of ps w now st now' st2] d show ?thesis by simp
  next
    case (Inr res)
    with dumpRailEnergy_plain [of ps w now st now' st2] d
      dumpRailEnergy_plain [of ps w now' st2 now st] show ?thesis
      by (cases res) auto
  qed
  have p2: "st' = st \<and> dumpStateResidency ps w now' st2 False = Inr (w', st2, items)"
    if d: "dumpStateResidency ps w now st False = Inr (w', st', items)"
  proof (cases "dumpStateResidency ps w now' st2 False")
    case (Inl f)
    with dumpStateResidency_plain [of ps w now st now' st2] d show ?thesis by simp
  next
    case (Inr res)
    with dumpStateResidency_plain [of ps w now st now' st2] d
      dumpStateResidency_plain [of ps w now' st2 now st] show ?thesis
      by (cases res) auto
  qed
  have p3: "st' = st \<and> dump ps w now3 now4 st2 args = Inr (w', st2, items, status)"
    if a: "args \<noteq> [''delta'']" and d: "dump ps w now1 now2 st args = Inr (w', st', items, status)"
  proof (cases "dump ps w now3 now4 st2 args")
    case (Inl f)
    with dump_plain [OF a, of ps w now1 now2 st now3 now4 st2] d show ?thesis by simp
  next
    case (Inr res)
    with dump_plain [OF a, of ps w now1 now2 st now3 now4 st2] d
      dump_plain [OF a, of ps w now3 now4 st2 now1 now2 st] show ?thesis
      by (cases res) auto
  qed
  from dumpRailEnergy_delta(1) [of ps w now st w' st' items]
    dumpStateResidency_delta(1) [of ps w now st w' st' items] d3 p1 p2 p3
  show ?thesis by blast
qed

lemma exDumpStats_eq:
  "exDumpStats =
     \<lparr>mRailEnergyDataProvider = Some exRail,
      mPowerEntityInfos =
        [\<lparr>powerEntityId = 0, powerEntityName = ''CPU'',
          states = [\<lparr>powerEntityStateId = 0, powerEntityStateName = ''IDLE''\<rparr>]\<rparr>,
         \<lparr>powerEntityId = 1, powerEntityName = ''GPU'', states = []\<rparr>],
      mStateResidencyDataProviders = [exSoc, exSoc]\<rparr>"
  by (simp add: exDumpStats_def PowerStats_new_def addStateResidencyDataProvider_def
      setRailDataProvider_def exSoc_def)

lemma ex_rail_maps:
  "getRailEnergyMaps exDumpStats w =
     (w, [0 \<mapsto> (''CPU'', ''VDD_CPU''), 1 \<mapsto> (''MEM'', ''VDD_MEM'')])"
  by (simp add: getRailEnergyMaps_def getRailInfo_def exDumpStats_eq exRail_def emplace_def)

lemma ex_energy:
  "getEnergyData exDumpStats w [] [] =
     (Suc w, STATUS_OK,
      [\<lparr>energy_railIndex = 0, energyUWs = 1000 + 500 * of_nat w\<rparr>,
       \<lparr>energy_railIndex = 1, energyUWs = 42\<rparr>])"
  by (simp add: getEnergyData_def exDumpStats_eq exRail_def)

lemmas rail_dump_defs = dumpRailEnergy_def ex_rail_maps ex_energy emplace_def
  prevEnergyDataMap_def deltaEnergy_def exStatics_def elapsed_ms_def Let_def

lemma ex_rail_dump:
  "dumpRailEnergy exDumpStats 1 9000000 exStatics True =
     Inr (2,
          exStatics\<lparr>rail_prevEnergyData :=
                      [\<lparr>energy_railIndex = 0, energyUWs = 1500\<rparr>,
                       \<lparr>energy_railIndex = 1, energyUWs = 42\<rparr>],
                    rail_prevTime := Some 9000000\<rparr>,
          [Str rail_banner, Str ''Elapsed time: '', Num 4, Str '' ms'',
           StringPrintf rail_headerFormatDelta
             [S ''Subsys'', S ''Rail'', S ''Cumulative Energy'', S ''Delta   ''],
           StringPrintf rail_dataFormatDelta
             [S ''CPU'', S ''VDD_CPU'', MilliF 1500, MilliF 500],
           StringPrintf rail_dataFormatDelta
             [S ''MEM'', S ''VDD_MEM'', MilliF 42, MilliF 0],
           Str rail_end_banner])"
  by (simp add: rail_dump_defs)

lemma ex_results:
  "getPowerEntityStateResidencyData exDumpStats w [] [] =
     Inr (Suc w, STATUS_OK,
          [\<lparr>res_powerEntityId = 0, stateResidencyData = exCpuData w\<rparr>,
           \<lparr>res_powerEntityId = 1, stateResidencyData = []\<rparr>],
          [CalledGetResults 0 ''CPU'', AppendedResult 0 ''CPU'', AppendedResult 1 ''GPU''])"
  by (simp add: run_defs exDumpStats_eq exSoc_def iota_def numeral_2_eq_2)

lemma ex_maps:
  "getEntityStateMaps exDumpStats =
     ([0 \<mapsto> ''CPU'', 1 \<mapsto> ''GPU''], [0 \<mapsto> [0 \<mapsto> ''IDLE''], 1 \<mapsto> Map.empty])"
  by (simp add: getEntityStateMaps_def getPowerEntityInfo_def exDumpStats_eq emplace_def
      addStateNames_def)

lemmas res_dump_defs = dumpStateResidency_def ex_results ex_maps prevResultsMap_def
  addPrevStates_def stateDeltas_def emplace_def exCpuData_def exStatics_def elapsed_ms_def Let_def

lemma ex_res_dump:
  "dumpStateResidency exDumpStats 1 9000000 exStatics True =
     Inr (2,
          exStatics\<lparr>res_prevResults :=
                      [\<lparr>res_powerEntityId = 0, stateResidencyData = exCpuData 1\<rparr>,
                       \<lparr>res_powerEntityId = 1, stateResidencyData = []\<rparr>],
                    res_prevTime := Some 9000000\<rparr>,
          [Str res_banner, Str ''Elapsed time: '', Num 4, Str '' ms'',
           StringPrintf res_headerFormatDelta
             [S ''Entity'', S ''State'', S ''Total time'', S ''Delta   '',
              S ''Total entries'', S ''Delta   '', S ''Last entry tstamp'', S ''Delta ''],
           StringPrintf res_dataFormatDelta
             [S ''CPU'', S ''IDLE'', U64 100, D64 0, U64 1, D64 0, U64 7, D64 0],
           Str res_end_banner])"
  by (simp add: res_dump_defs)

lemma ex_first_dump:
  "dump exDumpStats 0 7 8 statics_init [''delta''] =
     Inr (2,
          \<lparr>rail_prevEnergyData =
             [\<lparr>energy_railIndex = 0, energyUWs = 1500\<rparr>,
              \<lparr>energy_railIndex = 1, energyUWs = 42\<rparr>],
           rail_prevTime = Some 8,
           res_prevResults =
             [\<lparr>res_powerEntityId = 0, stateResidencyData = exCpuData 0\<rparr>,
              \<lparr>res_powerEntityId = 1, stateResidencyData = []\<rparr>],
           res_prevTime = Some 7\<rparr>,
          [Str res_banner, Str ''Elapsed time: '', Num 0, Str '' ms'',
           StringPrintf res_headerFormatDelta
             [S ''Entity'', S ''State'', S ''Total time'', S ''Delta   '',
              S ''Total entries'', S ''Delta   '', S ''Last entry tstamp'', S ''Delta ''],
           StringPrintf res_dataFormatDelta
             [S ''CPU'', S ''IDLE'', U64 0, D64 0, U64 0, D64 0, U64 7, D64 0],
           Str res_end_banner,
           Str rail_banner, Str ''Elapsed time: '', Num 0, Str '' ms'',
           StringPrintf rail_headerFormatDelta
             [S ''Subsys'', S ''Rail'', S ''Cumulative Energy'', S ''Delta   ''],
           StringPrintf rail_dataFormatDelta
             [S ''CPU'', S ''VDD_CPU'', MilliF 1500, MilliF 0],
           StringPrintf rail_dataFormatDelta
             [S ''MEM'', S ''VDD_MEM'', MilliF 42, MilliF 0],
           Str rail_end_banner],
          STATUS_OK)"
  by (simp add: dump_def res_dump_defs rail_dump_defs statics_init_def)

lemma ex_plain_dump:
  "dump exDumpStats 0 7 8 exStatics [''verbose''] =
     Inr (2, exStatics,
          [Str res_banner,
           StringPrintf res_headerFormat
             [S ''Entity'', S ''State'', S ''Total time'', S ''Total entries'',
              S ''Last entry tstamp''],
           StringPrintf res_dataFormat [S ''CPU'', S ''IDLE'', U64 0, U64 0, U64 7],
           Str res_end_banner,
           Str rail_banner,
           StringPrintf rail_headerFormat [S ''Subsys'', S ''Rail'', S ''Cumulative Energy''],
           StringPrintf rail_dataFormat [S ''CPU'', S ''VDD_CPU'', MilliF 1500],
           StringPrintf rail_dataFormat [S ''MEM'', S ''VDD_MEM'', MilliF 42],
           Str rail_end_banner],
          STATUS_OK)"
  by (simp add: dump_def dumpStateResidency_def ex_results ex_maps exCpuData_def
      dumpRailEnergy_def ex_rail_maps ex_energy)

lemma ex_currentEnergyData:
  "currentEnergyData exDumpStats w =
     [\<lparr>energy_railIndex = 0, energyUWs = 1000 + 500 * of_nat w\<rparr>,
      \<lparr>energy_railIndex = 1, energyUWs = 42\<rparr>]"
  by (simp add: currentEnergyData_def ex_rail_maps ex_energy)

lemma ex_currentResults:
  "currentResults exDumpStats w =
     [\<lparr>res_powerEntityId = 0, stateResidencyData = exCpuData w\<rparr>,
      \<lparr>res_powerEntityId = 1, stateResidencyData = []\<rparr>]"
  by (simp add: currentResults_def ex_results)

theorem absent_key_has_zero_delta_witness:
  "(1 :: int32_t) \<notin> energy_railIndex ` set (rail_prevEnergyData exStatics) \<and>
   (\<exists>w' st' items.
      dumpRailEnergy exDumpStats 1 9000000 exStatics True = Inr (w', st', items) \<and>
      energy_railIndex (currentEnergyData exDumpStats 1 ! 1) = 1 \<and>
      rowDeltas (deltaRows items ! 1) = [MilliF 0]) \<and>
   (0 :: int32_t, 0 :: int32_t) \<notin> residencyKeys (res_prevResults exStatics) \<and>
   (\<exists>w' st' items.
      dumpStateResidency exDumpStats 1 9000000 exStatics True = Inr (w', st', items) \<and>
      flattenResults (currentResults exDumpStats 1) ! 0 = (0, hd (exCpuData 1)) \<and>
      data_powerEntityStateId (hd (exCpuData 1)) = 0 \<and>
      rowDeltas (deltaRows items ! 0) = [D64 0, D64 0, D64 0]) \<and>
   (\<exists>w' st' items status.
      dump exDumpStats 0 7 8 statics_init [''delta''] = Inr (w', st', items, status) \<and>
      length (deltaRows items) = 3 \<and> numbersOf items = [0, 0] \<and>
      rowDeltas (deltaRows items ! 0) = [D64 0, D64 0, D64 0] \<and>
      rowDeltas (deltaRows items ! 1) = [MilliF 0] \<and>
      rowDeltas (deltaRows items ! 2) = [MilliF 0])"
proof -
  have k1: "(1 :: int32_t) \<notin> energy_railIndex ` set (rail_prevEnergyData exStatics)"
    by (simp add: exStatics_def)
  have k2: "(0 :: int32_t, 0 :: int32_t) \<notin> residencyKeys (res_prevResults exStatics)"
    by (simp add: exStatics_def residencyKeys_def)
  note rail = absent_key_has_zero_delta [THEN conjunct1, rule_format, OF ex_rail_dump]
  from rail have "list_all2 (\<lambda>d row.
        energy_railIndex d \<notin> energy_railIndex ` set (rail_prevEnergyData exStatics) \<longrightarrow>
        rowDeltas row = [MilliF 0])
      (currentEnergyData exDumpStats 1)
      (deltaRows [Str rail_banner, Str ''Elapsed time: '', Num 4, Str '' ms'',
           StringPrintf rail_headerFormatDelta
             [S ''Subsys'', S ''Rail'', S ''Cumulative Energy'', S ''Delta   ''],
           StringPrintf rail_dataFormatDelta
             [S ''CPU'', S ''VDD_CPU'', MilliF 1500, MilliF 500],
           StringPrintf rail_dataFormatDelta
             [S ''MEM'', S ''VDD_MEM'', MilliF 42, MilliF 0],
           Str rail_end_banner])"
    by blast
  from list_all2_nthD [OF this, of 1] k1
  have r1: "rowDeltas (deltaRows [Str rail_banner, Str ''Elapsed time: '', Num 4, Str '' ms'',
           StringPrintf rail_headerFormatDelta
             [S ''Subsys'', S ''Rail'', S ''Cumulative Energy'', S ''Delta   ''],
           StringPrintf rail_dataFormatDelta
             [S ''CPU'', S ''VDD_CPU'', MilliF 1500, MilliF 500],
           StringPrintf rail_dataFormatDelta
             [S ''MEM'', S ''VDD_MEM'', MilliF 42, MilliF 0],
           Str rail_end_banner] ! 1) = [MilliF 0]"
    by (simp add: ex_currentEnergyData)
  have c1: "energy_railIndex (currentEnergyData exDumpStats 1 ! 1) = 1"
    by (simp add: ex_currentEnergyData)
  note res = absent_key_has_zero_delta [THEN conjunct2, THEN conjunct1, rule_format,
      OF ex_res_dump]
  from res have "list_all2 (\<lambda>(eid, sr) row.
        (eid, data_powerEntityStateId sr) \<notin> residencyKeys (res_prevResults exStatics) \<longrightarrow>
        rowDeltas row = [D64 0, D64 0, D64 0])
      (flattenResults (currentResults exDumpStats 1))
      (deltaRows [Str res_banner, Str ''Elapsed time: '', Num 4, Str '' ms'',
           StringPrintf res_headerFormatDelta
             [S ''Entity'', S ''State'', S ''Total time'', S ''Delta   '',
              S ''Total entries'', S ''Delta   '', S ''Last entry tstamp'', S ''Delta ''],
           StringPrintf res_dataFormatDelta
             [S ''CPU'', S ''IDLE'', U64 100, D64 0, U64 1, D64 0, U64 7, D64 0],
           Str res_end_banner])"
    by blast
  from list_all2_nthD [OF this, of 0] k2
  have r2: "rowDeltas (deltaRows [Str res_banner, Str ''Elapsed time: '', Num 4, Str '' ms'',
           StringPrintf res_headerFormatDelta
             [S ''Entity'', S ''State'', S ''Total time'', S ''Delta   '',
              S ''Total entries'', S ''Delta   '', S ''Last entry tstamp'', S ''Delta ''],
           StringPrintf res_dataFormatDelta
             [S ''CPU'', S ''IDLE'', U64 100, D64 0, U64 1, D64 0, U64 7, D64 0],
           Str res_end_banner] ! 0) = [D64 0, D64 0, D64 0]"
    by (simp add: ex_currentResults exCpuData_def)
  have c2: "flattenResults (currentResults exDumpStats 1) ! 0 = (0, hd (exCpuData 1))"
    "data_powerEntityStateId (hd (exCpuData 1)) = 0"
    by (simp_all add: ex_currentResults exCpuData_def)
  note first = absent_key_has_zero_delta [THEN conjunct2, THEN conjunct2, rule_format,
      OF ex_first_dump]
  from first have r3: "\<exists>w' st' items status.
      dump exDumpStats 0 7 8 statics_init [''delta''] = Inr (w', st', items, status) \<and>
      length (deltaRows items) = 3 \<and> numbersOf items = [0, 0] \<and>
      rowDeltas (deltaRows items ! 0) = [D64 0, D64 0, D64 0] \<and>
      rowDeltas (deltaRows items ! 1) = [MilliF 0] \<and>
      rowDeltas (deltaRows items ! 2) = [MilliF 0]"
    by (simp add: ex_first_dump)
  from k1 k2 ex_rail_dump r1 c1 ex_res_dump r2 c2 r3 show ?thesis
    by blast
qed

theorem snapshot_replaced_in_delta_mode_only_witness:
  "(\<exists>w' items.
      dumpRailEnergy exDumpStats 1 9000000 exStatics True =
        Inr (w', exStatics\<lparr>rail_prevEnergyData := currentEnergyData exDumpStats 1,
                          rail_prevTime := Some 9000000\<rparr>, items)) \<and>
   (\<exists>w' items.
      dumpStateResidency exDumpStats 1 9000000 exStatics True =
        Inr (w', exStatics\<lparr>res_prevResults := currentResults exDumpStats 1,
                          res_prevTime := Some 9000000\<rparr>, items)) \<and>
   [''verbose''] \<noteq> [''delta''] \<and>
   (\<exists>w' items status.
      dump exDumpStats 0 7 8 exStatics [''verbose''] = Inr (w', exStatics, items, status) \<and>
      dump exDumpStats 0 100 200 statics_init [''verbose''] =
        Inr (w', statics_init, items, status))"
proof -
  note t = snapshot_replaced_in_delta_mode_only
  from t [THEN conjunct1, rule_format, OF ex_rail_dump] ex_rail_dump
  have 1: "\<exists>w' items.
      dumpRailEnergy exDumpStats 1 9000000 exStatics True =
        Inr (w', exStatics\<lparr>rail_prevEnergyData := currentEnergyData exDumpStats 1,
                          rail_prevTime := Some 9000000\<rparr>, items)"
    by simp
  from t [THEN conjunct2, THEN conjunct1, rule_format, OF ex_res_dump] ex_res_dump
  have 2: "\<exists>w' items.
      dumpStateResidency exDumpStats 1 9000000 exStatics True =
        Inr (w', exStatics\<lparr>res_prevResults := currentResults exDumpStats 1,
                          res_prevTime := Some 9000000\<rparr>, items)"
    by simp
  have ne: "[''verbose''] \<noteq> [''delta'']" by simp
  from t [THEN conjunct2, THEN conjunct2, THEN conjunct2, THEN conjunct2, THEN conjunct2,
      rule_format, OF conjI, OF ne ex_plain_dump, of 100 200 statics_init] ex_plain_dump
  have 3: "\<exists>w' items status.
      dump exDumpStats 0 7 8 exStatics [''verbose''] = Inr (w', exStatics, items, status) \<and>
      dump exDumpStats 0 100 200 statics_init [''verbose''] =
        Inr (w', statics_init, items, status)"
    by simp
  from 1 2 ne 3 show ?thesis by blast
qed

end
